theory Spec2Isabelle
  imports Complex_Main "HOL-Library.Multiset"
begin

section \<open>JavaScript strings\<close>

text \<open>
  A JavaScript string is a sequence of UTF-16 code units; a code unit is written as its
  number (below \<open>0x10000\<close>). Text that enters the program from outside (the query
  tokens of a request, the labels of a provider hit) is an Isabelle \<open>string\<close>, whose
  characters are read as the code units U+0000 to U+00FF. On that range, and on the few
  code units the program can compute from it, the case tables below are those of Unicode
  (UnicodeData and SpecialCasing, which \<open>toUpperCase\<close> and \<open>toLowerCase\<close> follow); the
  tables of the rest of Unicode are not embedded, and a code unit outside the tables is
  returned as it is. The handler for tokens of any code units, with the case mapping as a
  parameter, follows the print route.
\<close>

type_synonym jsstring = "nat list"

definition js :: "string \<Rightarrow> jsstring" where
  "js s = map of_char s"

definition hyphen :: nat where
  "hyphen = 0x2D"

definition ampersand :: nat where
  "ampersand = 0x26"

text \<open>\<open>c.toUpperCase()\<close> for a one-unit string: U+00DF (sharp s) becomes two units.\<close>

definition upper_unit :: "nat \<Rightarrow> jsstring" where
  "upper_unit c =
     (if 0x61 \<le> c \<and> c \<le> 0x7A then [c - 0x20]
      else if c = 0xB5 then [0x39C]
      else if c = 0xDF then [0x53, 0x53]
      else if 0xE0 \<le> c \<and> c \<le> 0xFE \<and> c \<noteq> 0xF7 then [c - 0x20]
      else if c = 0xFF then [0x178]
      else if c = 0x3BC then [0x39C]
      else [c])"

definition lower_unit :: "nat \<Rightarrow> nat" where
  "lower_unit c =
     (if 0x41 \<le> c \<and> c \<le> 0x5A then c + 0x20
      else if 0xC0 \<le> c \<and> c \<le> 0xDE \<and> c \<noteq> 0xD7 then c + 0x20
      else if c = 0x178 then 0xFF
      else if c = 0x39C then 0x3BC
      else c)"

definition toUpperCase :: "jsstring \<Rightarrow> jsstring" where
  "toUpperCase s = concat (map upper_unit s)"

definition toLowerCase :: "jsstring \<Rightarrow> jsstring" where
  "toLowerCase s = map lower_unit s"

text \<open>\<open>str.split(sep)\<close> for a one-unit separator: never empty, \<open>''''.split(sep)\<close> is \<open>['''']\<close>.\<close>

fun split_on :: "nat \<Rightarrow> jsstring \<Rightarrow> jsstring list" where
  "split_on sep [] = [[]]"
| "split_on sep (c # cs) =
     (if c = sep then [] # split_on sep cs
      else (case split_on sep cs of
              [] \<Rightarrow> [[c]]
            | w # ws \<Rightarrow> (c # w) # ws))"

text \<open>\<open>array.join(sep)\<close>.\<close>

fun join :: "jsstring \<Rightarrow> jsstring list \<Rightarrow> jsstring" where
  "join sep [] = []"
| "join sep [w] = w"
| "join sep (w # v # ws) = w @ sep @ join sep (v # ws)"

text \<open>
  \<open>word.charAt(0).toUpperCase() + word.slice(1).toLowerCase()\<close>: \<open>charAt(0)\<close> is the
  first unit (the empty string for an empty word), \<open>slice(1)\<close> the rest.
\<close>

definition capitalizeWord :: "jsstring \<Rightarrow> jsstring" where
  "capitalizeWord word = toUpperCase (take 1 word) @ toLowerCase (drop 1 word)"

definition capitalizeWords :: "jsstring \<Rightarrow> jsstring" where
  "capitalizeWords str = join [hyphen] (map capitalizeWord (split_on hyphen str))"

subsection \<open>encodeURIComponent\<close>

text \<open>
  The unreserved units \<open>A-Z a-z 0-9 - _ . ! ~ * ' ( )\<close> are kept; every other code point
  is written as the \<open>%XX\<close> of its UTF-8 bytes. A surrogate without its partner raises
  URIError: the result \<open>None\<close>.
\<close>

definition unreserved :: "nat \<Rightarrow> bool" where
  "unreserved c =
     ((0x41 \<le> c \<and> c \<le> 0x5A) \<or> (0x61 \<le> c \<and> c \<le> 0x7A) \<or> (0x30 \<le> c \<and> c \<le> 0x39)
      \<or> c = 0x2D \<or> c = 0x5F \<or> c = 0x2E \<or> c = 0x21 \<or> c = 0x7E \<or> c = 0x2A
      \<or> c = 0x27 \<or> c = 0x28 \<or> c = 0x29)"

definition hex_digit :: "nat \<Rightarrow> nat" where
  "hex_digit d = (if d < 10 then 0x30 + d else 0x37 + d)"

definition percent :: "nat \<Rightarrow> jsstring" where
  "percent b = [0x25, hex_digit (b div 16), hex_digit (b mod 16)]"

definition utf8 :: "nat \<Rightarrow> nat list" where
  "utf8 cp =
     (if cp < 0x80 then [cp]
      else if cp < 0x800 then [0xC0 + cp div 64, 0x80 + cp mod 64]
      else if cp < 0x10000 then [0xE0 + cp div 4096, 0x80 + (cp div 64) mod 64, 0x80 + cp mod 64]
      else [0xF0 + cp div 262144, 0x80 + (cp div 4096) mod 64,
            0x80 + (cp div 64) mod 64, 0x80 + cp mod 64])"

definition escape :: "nat \<Rightarrow> jsstring" where
  "escape cp = concat (map percent (utf8 cp))"

fun encodeURIComponent :: "jsstring \<Rightarrow> jsstring option" where
  "encodeURIComponent [] = Some []"
| "encodeURIComponent (c # cs) =
     (if unreserved c then map_option ((#) c) (encodeURIComponent cs)
      else if c < 0xD800 \<or> 0xDFFF < c then map_option ((@) (escape c)) (encodeURIComponent cs)
      else if 0xDC00 \<le> c then None
      else (case cs of
              [] \<Rightarrow> None
            | d # ds \<Rightarrow>
                if 0xDC00 \<le> d \<and> d \<le> 0xDFFF
                then map_option ((@) (escape (0x10000 + (c - 0xD800) * 0x400 + (d - 0xDC00))))
                       (encodeURIComponent ds)
                else None))"

section \<open>Numbers\<close>

text \<open>
  A JavaScript number is a finite value, an infinity or NaN. Finite values are rationals
  and a finite quotient is exact: the rounding of a double and the sign of zero are not
  part of the model.
\<close>

datatype jsnum = Finite rat | Infinity | NegInfinity | NaN

text \<open>\<open>ToNumber\<close> of a property that holds a number or is \<open>undefined\<close>.\<close>

fun ToNumber :: "rat option \<Rightarrow> jsnum" where
  "ToNumber None = NaN"
| "ToNumber (Some x) = Finite x"

fun js_div :: "jsnum \<Rightarrow> jsnum \<Rightarrow> jsnum" where
  "js_div NaN y = NaN"
| "js_div x NaN = NaN"
| "js_div (Finite a) (Finite b) =
     (if b = 0 then (if a = 0 then NaN else if 0 < a then Infinity else NegInfinity)
      else Finite (a / b))"
| "js_div (Finite a) y = Finite 0"
| "js_div Infinity (Finite b) = (if b < 0 then NegInfinity else Infinity)"
| "js_div NegInfinity (Finite b) = (if b < 0 then Infinity else NegInfinity)"
| "js_div x y = NaN"

section \<open>Recipes, provider hits and the store\<close>

text \<open>
  The record the controller builds from a hit and sends to the client. An optional field
  is \<open>None\<close> where the JavaScript value is \<open>undefined\<close> (title, image) or \<open>null\<close>
  (servingSize, caloriesPerServing, totalTime).
\<close>

type_synonym nutrient = "jsstring \<times> rat \<times> jsstring"

record recipe =
  title :: "jsstring option"
  image_url :: "jsstring option"
  source :: jsstring
  instructionsUrl :: jsstring
  dietLabels :: "jsstring list"
  healthLabels :: "jsstring list"
  ingredients :: "jsstring list"
  servingSize :: "rat option"
  caloriesPerServing :: "jsnum option"
  totalTime :: "rat option"
  cuisineType :: "jsstring list"
  mealType :: "jsstring list"
  dishType :: "jsstring list"
  totalNutrients :: "(jsstring \<times> nutrient) list"

text \<open>
  \<open>hit.recipe\<close> as the provider sends it: every property may be missing (\<open>None\<close> is
  \<open>undefined\<close>); a property that is there has the type the provider documents.
\<close>

record edamam_recipe =
  hit_label :: "string option"
  hit_image :: "string option"
  hit_source :: "string option"
  hit_url :: "string option"
  hit_dietLabels :: "string list option"
  hit_healthLabels :: "string list option"
  hit_ingredientLines :: "string list option"
  hit_yield :: "rat option"
  hit_calories :: "rat option"
  hit_totalTime :: "rat option"
  hit_cuisineType :: "string list option"
  hit_mealType :: "string list option"
  hit_dishType :: "string list option"
  hit_totalNutrients :: "(string \<times> string \<times> rat \<times> string) list option"

datatype hit = Hit (hit_recipe: "edamam_recipe option")

text \<open>
  What \<open>await fetchRecipes(...)\<close> gives: an exception, a falsy value, or an object
  whose \<open>hits\<close> property is missing or an array.
\<close>

datatype provider_reply = ProviderThrows | NoData | Data "hit list option"

datatype exn = StoreError | TypeError | URIError | ValidationError

text \<open>A stored document: the recipe and the two internal fields \<open>_id\<close> and \<open>__v\<close>.\<close>

record doc =
  doc_id :: nat
  doc_v :: nat
  doc_body :: recipe

text \<open>
  The state a request can change: the recipes collection, the next identifier the store
  hands out, and the arguments of the provider calls made so far.
\<close>

record world =
  collection :: "doc list"
  next_id :: nat
  provider_calls :: "jsstring list"

text \<open>
  What the surroundings decide during one request: whether the store answers the lookup,
  whether it accepts a batch, what the provider replies to a query string, and the order
  the engine's sort leaves behind.
\<close>

record env =
  find_available :: bool
  insert_accepted :: "recipe list \<Rightarrow> bool"
  fetchRecipes :: "jsstring \<Rightarrow> provider_reply"
  sort_draws :: "nat list"

text \<open>The MongoDB query object: each key is absent or \<open>{ $all: [...] }\<close>.\<close>

record query =
  q_dietLabels :: "jsstring list option"
  q_healthLabels :: "jsstring list option"

text \<open>\<open>$all\<close>: the field holds every listed value; an empty list matches no document.\<close>

definition all_op :: "jsstring list \<Rightarrow> jsstring list \<Rightarrow> bool" where
  "all_op wanted field = (wanted \<noteq> [] \<and> list_all (\<lambda>t. t \<in> set field) wanted)"

definition matches :: "query \<Rightarrow> recipe \<Rightarrow> bool" where
  "matches q r =
     ((case q_dietLabels q of None \<Rightarrow> True | Some ts \<Rightarrow> all_op ts (dietLabels r)) \<and>
      (case q_healthLabels q of None \<Rightarrow> True | Some ts \<Rightarrow> all_op ts (healthLabels r)))"

text \<open>
  An object of the working set, as the response serialises it: the fields of the recipe
  and, where the object has them, the internal fields \<open>_id\<close> and \<open>__v\<close>.
\<close>

record item =
  item_id :: "nat option"
  item_v :: "nat option"
  item_fields :: recipe

text \<open>
  The second argument of \<open>find\<close>, a projection that switches internal fields off:
  \<open>{ _id: 0, __v: 0 }\<close> excludes both.
\<close>

record projection =
  exclude_id :: bool
  exclude_v :: bool

definition project :: "projection \<Rightarrow> doc \<Rightarrow> item" where
  "project p d =
     \<lparr>item_id = (if exclude_id p then None else Some (doc_id d)),
      item_v = (if exclude_v p then None else Some (doc_v d)),
      item_fields = doc_body d\<rparr>"

text \<open>
  Modelled from the spec: \<open>Recipe.find\<close> of the model that \<open>models/db.js\<close> exports,
  which is not among the sources. \<open>find(filter, projection)\<close> returns, in the order of
  the collection, the projected documents that match the filter, a conjunctive match over
  \<open>dietLabels\<close> and \<open>healthLabels\<close>; an unreachable store is an exception.
\<close>

definition Recipe_find :: "env \<Rightarrow> query \<Rightarrow> projection \<Rightarrow> world \<Rightarrow> exn + item list" where
  "Recipe_find e q p w =
     (if find_available e
      then Inr (map (project p) (filter (\<lambda>d. matches q (doc_body d)) (collection w)))
      else Inl StoreError)"

text \<open>
  Modelled from the spec: \<open>Recipe.insertMany\<close> of the same model. It appends the whole
  batch, giving each document a fresh \<open>_id\<close> and the version 0, or fails and appends
  nothing.
\<close>

fun new_docs :: "nat \<Rightarrow> recipe list \<Rightarrow> doc list" where
  "new_docs n [] = []"
| "new_docs n (r # rs) = \<lparr>doc_id = n, doc_v = 0, doc_body = r\<rparr> # new_docs (Suc n) rs"

definition Recipe_insertMany :: "env \<Rightarrow> recipe list \<Rightarrow> world \<Rightarrow> exn + world" where
  "Recipe_insertMany e rs w =
     (if insert_accepted e rs
      then Inr (w\<lparr>collection := collection w @ new_docs (next_id w) rs,
                  next_id := next_id w + length rs\<rparr>)
      else Inl ValidationError)"

section \<open>The retrieval handler\<close>

text \<open>
  \<open>req.query.diet\<close> and \<open>req.query.health\<close>: missing, one string, or an array of
  strings.
\<close>

datatype qvalue = Absent | Single string | Multiple "string list"

record request =
  query_diet :: qvalue
  query_health :: qvalue

datatype criteria = Str jsstring | Arr "jsstring list"

text \<open>\<open>req.query.x || []\<close>: \<open>undefined\<close> and the empty string are falsy, an array is not.\<close>

fun or_empty :: "qvalue \<Rightarrow> criteria" where
  "or_empty Absent = Arr []"
| "or_empty (Single s) = (if s = [] then Arr [] else Str (js s))"
| "or_empty (Multiple ss) = Arr (map js ss)"

text \<open>\<open>Array.isArray(c) ? c.map(d => capitalizeWords(d)) : [capitalizeWords(c)]\<close>.\<close>

fun criteriaArray :: "criteria \<Rightarrow> jsstring list" where
  "criteriaArray (Arr ds) = map capitalizeWords ds"
| "criteriaArray (Str d) = [capitalizeWords d]"

definition build_query :: "jsstring list \<Rightarrow> jsstring list \<Rightarrow> query" where
  "build_query dietCriteriaArray healthCriteriaArray =
     \<lparr>q_dietLabels = (if length dietCriteriaArray > 0 then Some dietCriteriaArray else None),
      q_healthLabels = (if length healthCriteriaArray > 0 then Some healthCriteriaArray else None)\<rparr>"

text \<open>A callback that may throw, mapped over an array: the first exception ends the map.\<close>

fun map_throwing :: "('a \<Rightarrow> exn + 'b) \<Rightarrow> 'a list \<Rightarrow> exn + 'b list" where
  "map_throwing f [] = Inr []"
| "map_throwing f (x # xs) =
     (case f x of
        Inl e \<Rightarrow> Inl e
      | Inr y \<Rightarrow> (case map_throwing f xs of Inl e \<Rightarrow> Inl e | Inr ys \<Rightarrow> Inr (y # ys)))"

definition encode_param :: "string \<Rightarrow> jsstring \<Rightarrow> exn + jsstring" where
  "encode_param key v =
     (case encodeURIComponent v of None \<Rightarrow> Inl URIError | Some ev \<Rightarrow> Inr (js key @ ev))"

text \<open>
  The query string: the \<open>diet=\<close> parameters joined by \<open>&\<close>, one more \<open>&\<close>, the
  \<open>health=\<close> parameters joined by \<open>&\<close>.
\<close>

definition queryString :: "jsstring list \<Rightarrow> jsstring list \<Rightarrow> exn + jsstring" where
  "queryString dietCriteriaArrayLower healthCriteriaArrayLower =
     (case map_throwing (encode_param ''diet='') dietCriteriaArrayLower of
        Inl e \<Rightarrow> Inl e
      | Inr ds \<Rightarrow>
          (case map_throwing (encode_param ''health='') healthCriteriaArrayLower of
             Inl e \<Rightarrow> Inl e
           | Inr hs \<Rightarrow> Inr (join [ampersand] ds @ [ampersand] @ join [ampersand] hs)))"

text \<open>\<open>x || d\<close> for a string property: \<open>undefined\<close> and the empty string give \<open>d\<close>.\<close>

fun or_string :: "string option \<Rightarrow> string \<Rightarrow> jsstring" where
  "or_string None d = js d"
| "or_string (Some s) d = (if s = [] then js d else js s)"

text \<open>\<open>x || []\<close> for an array property.\<close>

fun or_list :: "'a list option \<Rightarrow> 'a list" where
  "or_list None = []"
| "or_list (Some xs) = xs"

definition js_nutrient :: "string \<times> string \<times> rat \<times> string \<Rightarrow> jsstring \<times> nutrient" where
  "js_nutrient n = (case n of (code, label, quantity, unit) \<Rightarrow> (js code, js label, quantity, js unit))"

text \<open>
  The object built from one hit. Reading a property of \<open>hit.recipe\<close> when \<open>hit.recipe\<close>
  is \<open>undefined\<close>, or calling \<open>.map\<close> on a missing \<open>dietLabels\<close> or \<open>healthLabels\<close>,
  throws a TypeError. The result of \<open>.map\<close> is an array, hence truthy, so the
  \<open>|| []\<close> behind it never applies.
\<close>

definition map_hit :: "hit \<Rightarrow> exn + recipe" where
  "map_hit h =
     (case hit_recipe h of
        None \<Rightarrow> Inl TypeError
      | Some r \<Rightarrow>
          (case hit_dietLabels r of
             None \<Rightarrow> Inl TypeError
           | Some dl \<Rightarrow>
               (case hit_healthLabels r of
                  None \<Rightarrow> Inl TypeError
                | Some hl \<Rightarrow>
                    Inr \<lparr>title = map_option js (hit_label r),
                         image_url = map_option js (hit_image r),
                         source = or_string (hit_source r) ''Unknown'',
                         instructionsUrl = or_string (hit_url r) ''No URL available'',
                         dietLabels = map (\<lambda>label. capitalizeWords (js label)) dl,
                         healthLabels = map (\<lambda>label. capitalizeWords (js label)) hl,
                         ingredients = map js (or_list (hit_ingredientLines r)),
                         servingSize = hit_yield r,
                         caloriesPerServing =
                           (case hit_calories r of
                              None \<Rightarrow> None
                            | Some c \<Rightarrow> Some (js_div (Finite c) (ToNumber (hit_yield r)))),
                         totalTime = hit_totalTime r,
                         cuisineType = map js (or_list (hit_cuisineType r)),
                         mealType = map js (or_list (hit_mealType r)),
                         dishType = map js (or_list (hit_dishType r)),
                         totalNutrients = map js_nutrient (or_list (hit_totalNutrients r))\<rparr>)))"

text \<open>
  \<open>recipes.sort(() => 0.5 - Math.random())\<close>: the comparator ignores its arguments, so
  the order left behind is decided by the engine's sort and the random draws alone. Each
  draw picks which of the remaining elements comes next; when the draws run out the rest
  keeps its order.
\<close>

fun sort_random :: "nat list \<Rightarrow> 'a list \<Rightarrow> 'a list" where
  "sort_random ks [] = []"
| "sort_random [] xs = xs"
| "sort_random (k # ks) xs =
     xs ! (k mod length xs) # sort_random ks (take (k mod length xs) xs @ drop (Suc (k mod length xs)) xs)"

definition selectedRecipes :: "nat list \<Rightarrow> item list \<Rightarrow> item list" where
  "selectedRecipes draws recipes = take 12 (sort_random draws recipes)"

datatype body = Recipes "item list" | ErrorMessage string

datatype pdf_text =
    Lit string
  | Field jsstring
  | MaybeField "jsstring option"
  | Fixed2 jsnum
  | NumberOrNull "rat option"

datatype pdf_op =
    FontSize nat
  | Font string
  | Text "pdf_text list"
  | TextContinued "pdf_text list"
  | MoveDown rat
  | ListItems "jsstring list"

datatype response =
    Json nat body
  | Pdf "(string \<times> string) list" "pdf_op list"

definition internal_error :: response where
  "internal_error = Json 500 (ErrorMessage ''Internal Server Error'')"

definition not_found :: response where
  "not_found = Json 404 (ErrorMessage ''No recipes found'')"

text \<open>
  The fallback branch (\<open>recipes.length < 12\<close>): the query string, the provider call, the
  test of \<open>data && data.hits\<close>, the first 100 hits mapped, the bulk insert. The result is
  the response of an early return or an exception (left), or the fetched recipes (right),
  with the state reached.
\<close>

definition fallback :: "env \<Rightarrow> jsstring list \<Rightarrow> jsstring list \<Rightarrow> world \<Rightarrow> (response + recipe list) \<times> world" where
  "fallback e dietCriteriaArrayLower healthCriteriaArrayLower w =
     (case queryString dietCriteriaArrayLower healthCriteriaArrayLower of
        Inl x \<Rightarrow> (Inl internal_error, w)
      | Inr qs \<Rightarrow>
          (let w1 = w\<lparr>provider_calls := provider_calls w @ [ampersand # qs]\<rparr> in
           case fetchRecipes e (ampersand # qs) of
             ProviderThrows \<Rightarrow> (Inl internal_error, w1)
           | NoData \<Rightarrow> (Inl not_found, w1)
           | Data None \<Rightarrow> (Inl not_found, w1)
           | Data (Some hits) \<Rightarrow>
               (case map_throwing map_hit (take 100 hits) of
                  Inl x \<Rightarrow> (Inl internal_error, w1)
                | Inr fetchedRecipes \<Rightarrow>
                    (case Recipe_insertMany e fetchedRecipes w1 of
                       Inl x \<Rightarrow> (Inl internal_error, w1)
                     | Inr w2 \<Rightarrow> (Inr fetchedRecipes, w2)))))"

text \<open>
  The normalised filters of a request: capitalised for the store, then lower-cased for the
  provider (the lower-casing is applied to the capitalised form).
\<close>

definition dietCriteriaArray :: "request \<Rightarrow> jsstring list" where
  "dietCriteriaArray req = criteriaArray (or_empty (query_diet req))"

definition healthCriteriaArray :: "request \<Rightarrow> jsstring list" where
  "healthCriteriaArray req = criteriaArray (or_empty (query_health req))"

definition dietCriteriaArrayLower :: "request \<Rightarrow> jsstring list" where
  "dietCriteriaArrayLower req = map toLowerCase (dietCriteriaArray req)"

definition healthCriteriaArrayLower :: "request \<Rightarrow> jsstring list" where
  "healthCriteriaArrayLower req = map toLowerCase (healthCriteriaArray req)"

definition store_query :: "request \<Rightarrow> query" where
  "store_query req = build_query (dietCriteriaArray req) (healthCriteriaArray req)"

text \<open>The projection \<open>{ _id: 0, __v: 0 }\<close> of the lookup.\<close>

definition no_internal_fields :: projection where
  "no_internal_fields = \<lparr>exclude_id = True, exclude_v = True\<rparr>"

text \<open>An object literal built from a hit: it has no internal field.\<close>

definition plain_object :: "recipe \<Rightarrow> item" where
  "plain_object r = \<lparr>item_id = None, item_v = None, item_fields = r\<rparr>"

definition getRecipes :: "env \<Rightarrow> request \<Rightarrow> world \<Rightarrow> response \<times> world" where
  "getRecipes e req w =
     (case Recipe_find e (store_query req) no_internal_fields w of
        Inl x \<Rightarrow> (internal_error, w)
      | Inr recipes \<Rightarrow>
          if length recipes < 12
          then (case fallback e (dietCriteriaArrayLower req) (healthCriteriaArrayLower req) w of
                  (Inl early, w') \<Rightarrow> (early, w')
                | (Inr fetchedRecipes, w') \<Rightarrow>
                    (Json 200
                       (Recipes (selectedRecipes (sort_draws e) (map plain_object fetchedRecipes))),
                     w'))
          else (Json 200 (Recipes (selectedRecipes (sort_draws e) recipes)), w))"

section \<open>The print route\<close>

text \<open>
  \<open>req.body.recipes\<close> is missing (\<open>None\<close>) or an array of recipes. The document is the
  sequence of calls made on it, a template string being the list of its pieces (the
  digits \<open>toFixed(2)\<close> prints are not computed). \<open>caloriesPerServing.toFixed(2)\<close> throws
  a TypeError on \<open>null\<close>; the handler has no \<open>catch\<close>, and what was written before the
  exception is not kept here.
\<close>

definition recipe_page :: "recipe \<Rightarrow> exn + pdf_op list" where
  "recipe_page r =
     (case caloriesPerServing r of
        None \<Rightarrow> Inl TypeError
      | Some c \<Rightarrow>
          Inr [FontSize 25, Text [MaybeField (title r)],
               Text [Lit '' ''],
               FontSize 16, Text [Lit ''Nutrition''],
               MoveDown (2 / 10),
               FontSize 12, Text [Lit ''    Calories: '', Fixed2 c, Lit '' kcal/serving''],
               MoveDown (2 / 10),
               Text [Lit ''    Serving Size: '', NumberOrNull (servingSize r)],
               MoveDown (15 / 10),
               FontSize 16, Text [Lit ''Diet and Health Information''],
               MoveDown (5 / 10),
               Font ''Helvetica-Bold'', FontSize 12, TextContinued [Lit ''    Diet Labels: ''],
               Font ''Helvetica'', Text [Field (join (js '', '') (dietLabels r))],
               MoveDown (5 / 10),
               Font ''Helvetica-Bold'', TextContinued [Lit ''    Health Labels: ''],
               Font ''Helvetica'', Text [Field (join (js '', '') (healthLabels r))],
               Text [Lit '' ''],
               FontSize 16, Text [Lit ''Ingredients''],
               MoveDown (5 / 10),
               FontSize 12, ListItems (ingredients r),
               MoveDown 4])"

definition print_route :: "recipe list option \<Rightarrow> exn + response" where
  "print_route recipes =
     (case recipes of
        None \<Rightarrow> Inr (Json 400 (ErrorMessage ''No recipes provided''))
      | Some rs \<Rightarrow>
          if length rs = 0 then Inr (Json 400 (ErrorMessage ''No recipes provided''))
          else (case map_throwing recipe_page rs of
                  Inl x \<Rightarrow> Inl x
                | Inr pages \<Rightarrow>
                    Inr (Pdf [(''Content-Type'', ''application/pdf''),
                              (''Content-Disposition'',
                               ''attachment; filename='' @ [CHR 0x22] @ ''recipes.pdf'' @ [CHR 0x22])]
                             (concat pages))))"

text \<open>
  The document a response carries, as the calls that wrote it: a JSON response and an
  exception carry none.
\<close>

fun document_ops :: "exn + response \<Rightarrow> pdf_op list option" where
  "document_ops (Inr (Pdf headers ops)) = Some ops"
| "document_ops other = None"

section \<open>The handler for every token and any case mapping\<close>

text \<open>
  \<open>String.prototype.toUpperCase\<close> and \<open>toLowerCase\<close> are functions on strings that the
  engine supplies; their tables are not part of the program. Here they are parameters,
  and a query parameter holds any string of code units. The definitions repeat lines 13
  to 97 of the controller with these two changes only; the handler above is the instance
  at the embedded tables.
\<close>

record casing =
  upper_of :: "jsstring \<Rightarrow> jsstring"
  lower_of :: "jsstring \<Rightarrow> jsstring"

definition capitalizeWord_in :: "casing \<Rightarrow> jsstring \<Rightarrow> jsstring" where
  "capitalizeWord_in cs word = upper_of cs (take 1 word) @ lower_of cs (drop 1 word)"

definition capitalizeWords_in :: "casing \<Rightarrow> jsstring \<Rightarrow> jsstring" where
  "capitalizeWords_in cs str =
     join [hyphen] (map (capitalizeWord_in cs) (split_on hyphen str))"

datatype any_value = Missing | One jsstring | Many "jsstring list"

record any_request =
  diet_value :: any_value
  health_value :: any_value

fun or_empty_any :: "any_value \<Rightarrow> criteria" where
  "or_empty_any Missing = Arr []"
| "or_empty_any (One s) = (if s = [] then Arr [] else Str s)"
| "or_empty_any (Many ss) = Arr ss"

fun criteriaArray_in :: "casing \<Rightarrow> criteria \<Rightarrow> jsstring list" where
  "criteriaArray_in cs (Arr ds) = map (capitalizeWords_in cs) ds"
| "criteriaArray_in cs (Str d) = [capitalizeWords_in cs d]"

definition dietCriteriaArray_in :: "casing \<Rightarrow> any_request \<Rightarrow> jsstring list" where
  "dietCriteriaArray_in cs req = criteriaArray_in cs (or_empty_any (diet_value req))"

definition healthCriteriaArray_in :: "casing \<Rightarrow> any_request \<Rightarrow> jsstring list" where
  "healthCriteriaArray_in cs req = criteriaArray_in cs (or_empty_any (health_value req))"

definition dietCriteriaArrayLower_in :: "casing \<Rightarrow> any_request \<Rightarrow> jsstring list" where
  "dietCriteriaArrayLower_in cs req = map (lower_of cs) (dietCriteriaArray_in cs req)"

definition healthCriteriaArrayLower_in :: "casing \<Rightarrow> any_request \<Rightarrow> jsstring list" where
  "healthCriteriaArrayLower_in cs req = map (lower_of cs) (healthCriteriaArray_in cs req)"

definition store_query_in :: "casing \<Rightarrow> any_request \<Rightarrow> query" where
  "store_query_in cs req = build_query (dietCriteriaArray_in cs req) (healthCriteriaArray_in cs req)"

definition getRecipes_in :: "casing \<Rightarrow> env \<Rightarrow> any_request \<Rightarrow> world \<Rightarrow> response \<times> world" where
  "getRecipes_in cs e req w =
     (case Recipe_find e (store_query_in cs req) no_internal_fields w of
        Inl x \<Rightarrow> (internal_error, w)
      | Inr recipes \<Rightarrow>
          if length recipes < 12
          then (case fallback e (dietCriteriaArrayLower_in cs req)
                       (healthCriteriaArrayLower_in cs req) w of
                  (Inl early, w') \<Rightarrow> (early, w')
                | (Inr fetchedRecipes, w') \<Rightarrow>
                    (Json 200
                       (Recipes (selectedRecipes (sort_draws e) (map plain_object fetchedRecipes))),
                     w'))
          else (Json 200 (Recipes (selectedRecipes (sort_draws e) recipes)), w))"

text \<open>The embedded tables as a case mapping, and a request of the handler above as a request here.\<close>

definition embedded_casing :: casing where
  "embedded_casing = \<lparr>upper_of = toUpperCase, lower_of = toLowerCase\<rparr>"

fun any_value_of :: "qvalue \<Rightarrow> any_value" where
  "any_value_of Absent = Missing"
| "any_value_of (Single s) = One (js s)"
| "any_value_of (Multiple ss) = Many (map js ss)"

definition any_request_of :: "request \<Rightarrow> any_request" where
  "any_request_of req =
     \<lparr>diet_value = any_value_of (query_diet req), health_value = any_value_of (query_health req)\<rparr>"

text \<open>
  The embedded tables with the capital sigma (U+03A3) added, for one example. It
  lower-cases to the final form U+03C2 when a cased unit stands directly before it and
  none directly after it, and to U+03C3 otherwise: the rule of \<open>toLowerCase\<close>, without the
  characters that the rule skips.
\<close>

definition cased :: "nat \<Rightarrow> bool" where
  "cased c =
     (upper_unit c \<noteq> [c] \<or> lower_unit c \<noteq> c \<or> c = 0x3A3 \<or> c = 0x3C3 \<or> c = 0x3C2)"

fun lower_with_sigma :: "bool \<Rightarrow> jsstring \<Rightarrow> jsstring" where
  "lower_with_sigma before [] = []"
| "lower_with_sigma before (c # cs) =
     (if c = 0x3A3
      then (if before \<and> \<not> (case cs of [] \<Rightarrow> False | d # ds \<Rightarrow> cased d) then 0x3C2 else 0x3C3)
      else lower_unit c) # lower_with_sigma (cased c) cs"

definition sigma_casing :: casing where
  "sigma_casing = \<lparr>upper_of = toUpperCase, lower_of = lower_with_sigma False\<rparr>"

definition sigma_request :: any_request where
  "sigma_request = \<lparr>diet_value = One [0x61, 0x3A3], health_value = Missing\<rparr>"

subsection \<open>What is assumed of a case mapping\<close>

text \<open>
  Facts about \<open>toUpperCase\<close> and \<open>toLowerCase\<close> that the statements below assume of the
  parameter, each where it is used. Both map the empty string to itself.
\<close>

definition keeps_empty :: "casing \<Rightarrow> bool" where
  "keeps_empty cs = (upper_of cs [] = [] \<and> lower_of cs [] = [])"

text \<open>Neither puts a hyphen into a string that has none.\<close>

definition makes_no_hyphen :: "casing \<Rightarrow> bool" where
  "makes_no_hyphen cs =
     (\<forall>s. hyphen \<notin> set s \<longrightarrow> hyphen \<notin> set (upper_of cs s) \<and> hyphen \<notin> set (lower_of cs s))"

text \<open>
  The upper-case form of one unit is never empty, and when it is one unit, that unit is
  its own upper-case form.
\<close>

definition upper_settles :: "casing \<Rightarrow> bool" where
  "upper_settles cs =
     (\<forall>c. upper_of cs [c] \<noteq> [] \<and> (\<forall>u. upper_of cs [c] = [u] \<longrightarrow> upper_of cs [u] = [u]))"

text \<open>A lower-case form is its own lower-case form.\<close>

definition lower_settles :: "casing \<Rightarrow> bool" where
  "lower_settles cs = (\<forall>s. lower_of cs (lower_of cs s) = lower_of cs s)"

text \<open>
  Lower-casing works on each side of a hyphen separately (a hyphen is neither cased nor
  ignored when the form of a final sigma is decided).
\<close>

definition lowers_around_hyphen :: "casing \<Rightarrow> bool" where
  "lowers_around_hyphen cs =
     (\<forall>a b. lower_of cs (a @ hyphen # b) = lower_of cs a @ hyphen # lower_of cs b)"

text \<open>
  A case mapping that works unit by unit, as the embedded tables do. \<open>toLowerCase\<close> itself
  does not: the form of a final sigma depends on its neighbours, and a letter outside the
  Basic Multilingual Plane is two units.
\<close>

definition unit_by_unit :: "casing \<Rightarrow> bool" where
  "unit_by_unit cs =
     (\<forall>s. upper_of cs s = concat (map (\<lambda>c. upper_of cs [c]) s) \<and>
          lower_of cs s = concat (map (\<lambda>c. lower_of cs [c]) s))"

section \<open>Predicates and inputs used in the statements\<close>

text \<open>The first unit of the segment upper-cases to more than one unit.\<close>

definition expands :: "casing \<Rightarrow> jsstring \<Rightarrow> bool" where
  "expands cs word = (1 < length (upper_of cs (take 1 word)))"

text \<open>
  The segment has the same lower-case form after capitalisation as before. For a case
  mapping that works unit by unit this says that the first unit lower-cases back after
  upper-casing.
\<close>

definition lowers_back :: "casing \<Rightarrow> jsstring \<Rightarrow> bool" where
  "lowers_back cs word = (lower_of cs (capitalizeWord_in cs word) = lower_of cs word)"

text \<open>
  The tokens a query parameter supplies: none when it is missing or the empty string
  (\<open>req.query.x || []\<close>), the string itself, or the elements of the array.
\<close>

fun tokens_any :: "any_value \<Rightarrow> jsstring list" where
  "tokens_any Missing = []"
| "tokens_any (One s) = (if s = [] then [] else [s])"
| "tokens_any (Many ss) = ss"

definition supplied :: "any_request \<Rightarrow> jsstring list" where
  "supplied req = tokens_any (diet_value req) @ tokens_any (health_value req)"

text \<open>Every unit of the string is below \<open>0x800\<close>, so far below the surrogates.\<close>

definition small :: "jsstring \<Rightarrow> bool" where
  "small x = list_all (\<lambda>c. c < 0x800) x"

text \<open>
  The tokens a query parameter supplies: none when it is missing or the empty string
  (\<open>req.query.x || []\<close>), the string itself, or the elements of the array.
\<close>

fun tokens :: "qvalue \<Rightarrow> string list" where
  "tokens Absent = []"
| "tokens (Single s) = (if s = [] then [] else [s])"
| "tokens (Multiple ss) = ss"

text \<open>The parameters of a query string: its non-empty pieces between ampersands.\<close>

definition parameters :: "jsstring \<Rightarrow> jsstring list" where
  "parameters q = filter (\<lambda>p. p \<noteq> []) (split_on ampersand q)"

text \<open>The hit has a recipe whose \<open>dietLabels\<close> or \<open>healthLabels\<close> is missing.\<close>

definition lacks_labels :: "hit \<Rightarrow> bool" where
  "lacks_labels h =
     (case hit_recipe h of
        None \<Rightarrow> False
      | Some r \<Rightarrow> hit_dietLabels r = None \<or> hit_healthLabels r = None)"

text \<open>
  Inputs for the examples: an empty store, a store of twelve documents, a provider hit
  with both label arrays, the same hit without \<open>yield\<close>, one without \<open>dietLabels\<close>,
  a reply of 101 hits of which only the last lacks \<open>dietLabels\<close>, and surroundings in
  which the store answers, accepts every batch, the provider gives one fixed reply and
  the sort leaves the order as it is.
\<close>

definition empty_world :: world where
  "empty_world = \<lparr>collection = [], next_id = 0, provider_calls = []\<rparr>"

definition plain_recipe :: recipe where
  "plain_recipe =
     \<lparr>title = Some (js ''Soup''), image_url = None, source = js ''Unknown'',
      instructionsUrl = js ''No URL available'', dietLabels = [js ''Balanced''],
      healthLabels = [js ''Vegan''], ingredients = [], servingSize = Some 4,
      caloriesPerServing = Some (Finite 125), totalTime = None, cuisineType = [],
      mealType = [], dishType = [], totalNutrients = []\<rparr>"

definition twelve_world :: world where
  "twelve_world =
     \<lparr>collection = new_docs 0 (replicate 12 plain_recipe), next_id = 12, provider_calls = []\<rparr>"

definition soup :: edamam_recipe where
  "soup =
     \<lparr>hit_label = Some ''Soup'', hit_image = None, hit_source = None, hit_url = None,
      hit_dietLabels = Some [''balanced''], hit_healthLabels = Some [''vegan''],
      hit_ingredientLines = None, hit_yield = Some 4, hit_calories = Some 500,
      hit_totalTime = None, hit_cuisineType = None, hit_mealType = None,
      hit_dishType = None, hit_totalNutrients = None\<rparr>"

definition soup_without_yield :: edamam_recipe where
  "soup_without_yield = soup\<lparr>hit_yield := None\<rparr>"

definition soup_without_dietLabels :: edamam_recipe where
  "soup_without_dietLabels = soup\<lparr>hit_dietLabels := None\<rparr>"

definition hundred_and_one_hits :: "hit list" where
  "hundred_and_one_hits = replicate 100 (Hit (Some soup)) @ [Hit (Some soup_without_dietLabels)]"

definition replying :: "provider_reply \<Rightarrow> env" where
  "replying reply =
     \<lparr>find_available = True, insert_accepted = (\<lambda>rs. True),
      fetchRecipes = (\<lambda>q. reply), sort_draws = []\<rparr>"

definition balanced_request :: request where
  "balanced_request = \<lparr>query_diet = Single ''balanced'', query_health = Absent\<rparr>"

definition mixed_case_request :: request where
  "mixed_case_request =
     \<lparr>query_diet = Multiple [''Balanced'', ''LOW-carb''], query_health = Single ''Vegan''\<rparr>"

definition sharp_s_request :: request where
  "sharp_s_request = \<lparr>query_diet = Single [CHR 0xDF], query_health = Absent\<rparr>"

definition micro_request :: request where
  "micro_request = \<lparr>query_diet = Single [CHR 0xB5], query_health = Absent\<rparr>"

definition unfiltered_request :: request where
  "unfiltered_request = \<lparr>query_diet = Absent, query_health = Absent\<rparr>"

section \<open>Splitting and joining\<close>

lemma split_on_not_Nil: "split_on sep s \<noteq> []"
  by (induction s) (auto split: list.splits)

lemma join_split_on: "join [sep] (split_on sep s) = s"
proof (induction s)
  case Nil show ?case by simp
next
  case (Cons c cs)
  obtain w ws where sp: "split_on sep cs = w # ws"
    using split_on_not_Nil[of sep cs] by (cases "split_on sep cs") auto
  show ?case using Cons sp by (cases ws) auto
qed

lemma split_on_segments: "w \<in> set (split_on sep s) \<Longrightarrow> sep \<notin> set w"
  by (induction s arbitrary: w) (auto split: if_splits list.splits)

lemma split_on_units_aux: "\<Union> (set ` set (split_on sep s)) \<subseteq> set s"
  by (induction s) (auto split: if_splits list.splits, blast+)

lemma split_on_units: "w \<in> set (split_on sep s) \<Longrightarrow> set w \<subseteq> set s"
  using split_on_units_aux[of sep s] by blast

lemma split_on_free: "sep \<notin> set w \<Longrightarrow> split_on sep w = [w]"
  by (induction w) auto

lemma split_on_append: "sep \<notin> set w \<Longrightarrow> split_on sep (w @ sep # s) = w # split_on sep s"
  by (induction w) auto

lemma split_on_join:
  "ws \<noteq> [] \<Longrightarrow> (\<And>w. w \<in> set ws \<Longrightarrow> sep \<notin> set w) \<Longrightarrow> split_on sep (join [sep] ws) = ws"
proof (induction ws)
  case Nil then show ?case by simp
next
  case (Cons w ws)
  show ?case
  proof (cases ws)
    case Nil
    then show ?thesis using Cons.prems by (simp add: split_on_free)
  next
    case (Cons v vs)
    have "split_on sep (join [sep] ws) = ws"
      using Cons.IH Cons.prems Cons by simp
    then show ?thesis using Cons Cons.prems by (simp add: split_on_append)
  qed
qed

section \<open>Case tables\<close>

lemma upper_unit_cases:
  obtains (az) d where "c = d + 0x20" "0x41 \<le> d" "d \<le> 0x5A" "upper_unit c = [d]"
  | (micro) "c = 0xB5" "upper_unit c = [0x39C]"
  | (sharp) "c = 0xDF" "upper_unit c = [0x53, 0x53]"
  | (latin) d where "c = d + 0x20" "0xC0 \<le> d" "d \<le> 0xDE" "d \<noteq> 0xD7" "upper_unit c = [d]"
  | (yuml) "c = 0xFF" "upper_unit c = [0x178]"
  | (mu) "c = 0x3BC" "upper_unit c = [0x39C]"
  | (fixed) "c < 0x61 \<or> 0x7A < c" "c \<noteq> 0xB5" "c \<noteq> 0xDF" "c < 0xE0 \<or> 0xFE < c \<or> c = 0xF7"
      "c \<noteq> 0xFF" "c \<noteq> 0x3BC" "upper_unit c = [c]"
proof -
  consider "0x61 \<le> c \<and> c \<le> 0x7A" | "c = 0xB5" | "c = 0xDF" | "0xE0 \<le> c \<and> c \<le> 0xFE \<and> c \<noteq> 0xF7"
    | "c = 0xFF" | "c = 0x3BC"
    | "(c < 0x61 \<or> 0x7A < c) \<and> c \<noteq> 0xB5 \<and> c \<noteq> 0xDF \<and> (c < 0xE0 \<or> 0xFE < c \<or> c = 0xF7) \<and> c \<noteq> 0xFF \<and> c \<noteq> 0x3BC"
    by linarith
  then show ?thesis
  proof cases
    case 1
    then obtain d where d: "c = d + 0x20" using le_Suc_ex[of "0x20" c] by (auto simp: add.commute)
    with 1 have "0x41 \<le> d" "d \<le> 0x5A" "upper_unit c = [d]" by (simp_all add: upper_unit_def)
    with d show ?thesis by (rule az)
  next
    case 2 then show ?thesis by (intro micro) (simp_all add: upper_unit_def)
  next
    case 3 then show ?thesis by (intro sharp) (simp_all add: upper_unit_def)
  next
    case 4
    then obtain d where d: "c = d + 0x20" using le_Suc_ex[of "0x20" c] by (auto simp: add.commute)
    with 4 have "0xC0 \<le> d" "d \<le> 0xDE" "d \<noteq> 0xD7" "upper_unit c = [d]" by (simp_all add: upper_unit_def)
    with d show ?thesis by (rule latin)
  next
    case 5 then show ?thesis by (intro yuml) (simp_all add: upper_unit_def)
  next
    case 6 then show ?thesis by (intro mu) (simp_all add: upper_unit_def)
  next
    case 7
    then have "upper_unit c = [c]" by (auto simp: upper_unit_def)
    with 7 show ?thesis by (intro fixed) simp_all
  qed
qed

lemma lower_unit_idem: "lower_unit (lower_unit c) = lower_unit c"
  by (simp add: lower_unit_def)

lemma upper_unit_idem: "c \<noteq> 0xDF \<Longrightarrow> \<exists>u. upper_unit c = [u] \<and> upper_unit u = [u]"
  by (cases c rule: upper_unit_cases) (simp_all add: upper_unit_def)

lemma lower_upper_unit: "c \<noteq> 0xDF \<Longrightarrow> c \<noteq> 0xB5 \<Longrightarrow> map lower_unit (upper_unit c) = [lower_unit c]"
  by (cases c rule: upper_unit_cases) (auto simp add: lower_unit_def)

lemma upper_unit_hyphen: "c \<noteq> hyphen \<Longrightarrow> hyphen \<notin> set (upper_unit c)"
  by (cases c rule: upper_unit_cases) (auto simp: hyphen_def)

lemma lower_unit_hyphen: "hyphen = lower_unit c \<Longrightarrow> c = hyphen"
  by (auto simp: lower_unit_def hyphen_def split: if_splits)

lemma capitalizeWord_Nil: "capitalizeWord [] = []"
  by (simp add: capitalizeWord_def toUpperCase_def toLowerCase_def)

lemma capitalizeWord_Cons: "capitalizeWord (c # r) = upper_unit c @ map lower_unit r"
  by (simp add: capitalizeWord_def toUpperCase_def toLowerCase_def)

section \<open>The embedded tables as a case mapping\<close>

lemma toUpperCase_single: "toUpperCase [c] = upper_unit c"
  by (simp add: toUpperCase_def)

lemma embedded_keeps_empty: "keeps_empty embedded_casing"
  by (simp add: keeps_empty_def embedded_casing_def toUpperCase_def toLowerCase_def)

lemma embedded_makes_no_hyphen: "makes_no_hyphen embedded_casing"
proof -
  have "hyphen \<notin> set (toUpperCase s)" if "hyphen \<notin> set s" for s
    using that by (induction s) (auto simp: toUpperCase_def upper_unit_hyphen)
  moreover have "hyphen \<notin> set (toLowerCase s)" if "hyphen \<notin> set s" for s
    using that by (induction s) (auto simp: toLowerCase_def dest: lower_unit_hyphen)
  ultimately show ?thesis by (simp add: makes_no_hyphen_def embedded_casing_def)
qed

lemma embedded_upper_settles: "upper_settles embedded_casing"
proof -
  have "upper_unit c \<noteq> [] \<and> (\<forall>u. upper_unit c = [u] \<longrightarrow> upper_unit u = [u])" for c
  proof (cases "c = 0xDF")
    case True then show ?thesis by (simp add: upper_unit_def)
  next
    case False
    then obtain v where "upper_unit c = [v]" "upper_unit v = [v]"
      using upper_unit_idem by blast
    then show ?thesis by simp
  qed
  then show ?thesis by (simp add: upper_settles_def embedded_casing_def toUpperCase_single)
qed

lemma embedded_lower_settles: "lower_settles embedded_casing"
  by (simp add: lower_settles_def embedded_casing_def toLowerCase_def lower_unit_idem)

lemma embedded_lowers_around_hyphen: "lowers_around_hyphen embedded_casing"
  by (simp add: lowers_around_hyphen_def embedded_casing_def toLowerCase_def lower_unit_def hyphen_def)

lemma embedded_unit_by_unit: "unit_by_unit embedded_casing"
proof -
  have "map lower_unit s = concat (map (\<lambda>c. [lower_unit c]) s)" for s
    by (induction s) simp_all
  then show ?thesis
    by (simp add: unit_by_unit_def embedded_casing_def toUpperCase_def toLowerCase_def)
qed

lemma capitalizeWord_embedded: "capitalizeWord_in embedded_casing = capitalizeWord"
  by (rule ext) (simp add: capitalizeWord_in_def capitalizeWord_def embedded_casing_def)

lemma capitalizeWords_embedded: "capitalizeWords_in embedded_casing = capitalizeWords"
  by (rule ext) (simp add: capitalizeWords_in_def capitalizeWords_def capitalizeWord_embedded)

lemma criteriaArray_embedded:
  "criteriaArray_in embedded_casing (or_empty_any (any_value_of v)) = criteriaArray (or_empty v)"
  by (cases v) (simp_all add: capitalizeWords_embedded js_def)

lemma lower_of_embedded: "lower_of embedded_casing = toLowerCase"
  by (simp add: embedded_casing_def)

lemma store_query_embedded:
  "store_query_in embedded_casing (any_request_of req) = store_query req"
  by (simp add: store_query_in_def store_query_def dietCriteriaArray_in_def
      healthCriteriaArray_in_def dietCriteriaArray_def healthCriteriaArray_def any_request_of_def
      criteriaArray_embedded)

lemma dietCriteriaArrayLower_embedded:
  "dietCriteriaArrayLower_in embedded_casing (any_request_of req) = dietCriteriaArrayLower req"
  by (simp add: dietCriteriaArrayLower_in_def dietCriteriaArrayLower_def dietCriteriaArray_in_def
      dietCriteriaArray_def any_request_of_def criteriaArray_embedded lower_of_embedded)

lemma healthCriteriaArrayLower_embedded:
  "healthCriteriaArrayLower_in embedded_casing (any_request_of req) = healthCriteriaArrayLower req"
  by (simp add: healthCriteriaArrayLower_in_def healthCriteriaArrayLower_def
      healthCriteriaArray_in_def healthCriteriaArray_def any_request_of_def criteriaArray_embedded
      lower_of_embedded)

lemma getRecipes_embedded:
  "getRecipes_in embedded_casing e (any_request_of req) w = getRecipes e req w"
  unfolding getRecipes_in_def getRecipes_def store_query_embedded
    dietCriteriaArrayLower_embedded healthCriteriaArrayLower_embedded
  by (rule refl)

section \<open>Capitalisation under any case mapping\<close>

lemma capitalizeWord_in_Nil: "keeps_empty cs \<Longrightarrow> capitalizeWord_in cs [] = []"
  by (simp add: capitalizeWord_in_def keeps_empty_def)

lemma capitalizeWord_in_hyphen:
  assumes "makes_no_hyphen cs" "hyphen \<notin> set w"
  shows "hyphen \<notin> set (capitalizeWord_in cs w)"
proof -
  have "hyphen \<notin> set (take 1 w)" "hyphen \<notin> set (drop 1 w)"
    using assms(2) by (auto dest: in_set_takeD in_set_dropD)
  then show ?thesis
    using assms(1) by (simp add: capitalizeWord_in_def makes_no_hyphen_def)
qed

lemma split_on_capitalizeWords_in:
  assumes "makes_no_hyphen cs"
  shows "split_on hyphen (capitalizeWords_in cs str) = map (capitalizeWord_in cs) (split_on hyphen str)"
  unfolding capitalizeWords_in_def
proof (rule split_on_join)
  show "map (capitalizeWord_in cs) (split_on hyphen str) \<noteq> []"
    by (simp add: split_on_not_Nil)
next
  fix w assume "w \<in> set (map (capitalizeWord_in cs) (split_on hyphen str))"
  then obtain v where "v \<in> set (split_on hyphen str)" "w = capitalizeWord_in cs v" by auto
  then show "hyphen \<notin> set w"
    using split_on_segments capitalizeWord_in_hyphen [OF assms] by blast
qed

lemma capitalizeWord_in_idem:
  assumes "keeps_empty cs" "upper_settles cs" "lower_settles cs" "\<not> expands cs w"
  shows "capitalizeWord_in cs (capitalizeWord_in cs w) = capitalizeWord_in cs w"
proof (cases w)
  case Nil
  then show ?thesis using assms(1) by (simp add: capitalizeWord_in_Nil)
next
  case (Cons c r)
  have "length (upper_of cs [c]) \<le> 1"
    using assms(4) Cons by (simp add: expands_def)
  moreover have "upper_of cs [c] \<noteq> []"
    using assms(2) by (simp add: upper_settles_def)
  ultimately obtain u where u: "upper_of cs [c] = [u]"
    by (cases "upper_of cs [c]") auto
  then have "upper_of cs [u] = [u]"
    using assms(2) by (simp add: upper_settles_def)
  moreover have "lower_of cs (lower_of cs r) = lower_of cs r"
    using assms(3) by (simp add: lower_settles_def)
  ultimately show ?thesis
    using Cons u by (simp add: capitalizeWord_in_def)
qed

lemma lower_of_join:
  assumes "lowers_around_hyphen cs" "ws \<noteq> []"
  shows "lower_of cs (join [hyphen] ws) = join [hyphen] (map (lower_of cs) ws)"
  using assms(2)
proof (induction ws)
  case Nil then show ?case by simp
next
  case (Cons w ws)
  show ?case
  proof (cases ws)
    case Nil then show ?thesis by simp
  next
    case (Cons v vs)
    then have "lower_of cs (join [hyphen] ws) = join [hyphen] (map (lower_of cs) ws)"
      using Cons.IH by simp
    then show ?thesis
      using Cons assms(1) by (simp add: lowers_around_hyphen_def)
  qed
qed

lemma lower_of_capitalizeWords_in:
  assumes "lowers_around_hyphen cs"
    and "list_all (lowers_back cs) (split_on hyphen t)"
  shows "lower_of cs (capitalizeWords_in cs t) = lower_of cs t"
proof -
  have same: "map (lower_of cs) (map (capitalizeWord_in cs) (split_on hyphen t))
      = map (lower_of cs) (split_on hyphen t)"
    using assms(2) by (simp add: list_all_iff lowers_back_def)
  have "lower_of cs (capitalizeWords_in cs t)
      = join [hyphen] (map (lower_of cs) (map (capitalizeWord_in cs) (split_on hyphen t)))"
    unfolding capitalizeWords_in_def
    by (rule lower_of_join [OF assms(1)]) (simp add: split_on_not_Nil)
  also have "\<dots> = join [hyphen] (map (lower_of cs) (split_on hyphen t))"
    by (simp only: same)
  also have "\<dots> = lower_of cs (join [hyphen] (split_on hyphen t))"
    by (rule lower_of_join [OF assms(1), symmetric]) (rule split_on_not_Nil)
  also have "\<dots> = lower_of cs t"
    by (simp only: join_split_on)
  finally show ?thesis .
qed

lemma criteriaArray_in_tokens:
  "criteriaArray_in cs (or_empty_any v) = map (capitalizeWords_in cs) (tokens_any v)"
  by (cases v) simp_all

lemma lowered_tokens_any:
  assumes "lowers_around_hyphen cs"
    and "list_all (\<lambda>t. list_all (lowers_back cs) (split_on hyphen t)) (tokens_any v)"
  shows "map (lower_of cs) (criteriaArray_in cs (or_empty_any v)) = map (lower_of cs) (tokens_any v)"
  using assms by (simp add: criteriaArray_in_tokens list_all_iff lower_of_capitalizeWords_in)

lemma first_unit_lowers_back:
  assumes "unit_by_unit cs" "lower_settles cs"
    and "lower_of cs (upper_of cs (take 1 w)) = lower_of cs (take 1 w)"
  shows "lowers_back cs w"
proof -
  have units: "lower_of cs s = concat (map (\<lambda>c. lower_of cs [c]) s)" for s
    using assms(1) unfolding unit_by_unit_def by blast
  have app: "lower_of cs (a @ b) = lower_of cs a @ lower_of cs b" for a b
  proof -
    have "lower_of cs (a @ b) = concat (map (\<lambda>c. lower_of cs [c]) (a @ b))"
      by (rule units)
    also have "\<dots> = concat (map (\<lambda>c. lower_of cs [c]) a) @ concat (map (\<lambda>c. lower_of cs [c]) b)"
      by simp
    also have "\<dots> = lower_of cs a @ lower_of cs b"
      by (simp only: units [symmetric])
    finally show ?thesis .
  qed
  have settled: "lower_of cs (lower_of cs (drop 1 w)) = lower_of cs (drop 1 w)"
    using assms(2) unfolding lower_settles_def by blast
  have "lower_of cs (capitalizeWord_in cs w)
      = lower_of cs (upper_of cs (take 1 w)) @ lower_of cs (lower_of cs (drop 1 w))"
    unfolding capitalizeWord_in_def by (rule app)
  also have "\<dots> = lower_of cs (take 1 w) @ lower_of cs (drop 1 w)"
    by (simp only: assms(3) settled)
  also have "\<dots> = lower_of cs (take 1 w @ drop 1 w)"
    by (rule app [symmetric])
  also have "\<dots> = lower_of cs w"
    by simp
  finally show ?thesis by (simp only: lowers_back_def)
qed

text \<open>
  With the embedded tables, a segment keeps its lower-case form under capitalisation
  unless it begins with the sharp s or the micro sign.
\<close>

lemma embedded_lowers_back:
  assumes "take 1 w \<noteq> [0xDF]" "take 1 w \<noteq> [0xB5]"
  shows "lowers_back embedded_casing w"
proof (rule first_unit_lowers_back [OF embedded_unit_by_unit embedded_lower_settles])
  show "lower_of embedded_casing (upper_of embedded_casing (take 1 w))
      = lower_of embedded_casing (take 1 w)"
  proof (cases w)
    case Nil
    then show ?thesis by (simp add: embedded_casing_def toUpperCase_def toLowerCase_def)
  next
    case (Cons c r)
    then have "c \<noteq> 0xDF" "c \<noteq> 0xB5" using assms by simp_all
    then show ?thesis
      using Cons by (simp add: embedded_casing_def toUpperCase_def toLowerCase_def lower_upper_unit)
  qed
qed

section \<open>The query string is always built\<close>

lemma small_js: "small (js s)"
proof -
  have "of_char c < (0x800::nat)" for c
    using nat_of_char_less_256[of c] by linarith
  then show ?thesis by (simp add: small_def js_def list_all_iff)
qed

lemma upper_unit_small: "c < 0x800 \<Longrightarrow> u \<in> set (upper_unit c) \<Longrightarrow> u < 0x800"
  by (cases c rule: upper_unit_cases) auto

lemma lower_unit_small: "c < 0x800 \<Longrightarrow> lower_unit c < 0x800"
  by (auto simp: lower_unit_def)

lemma small_toLowerCase: "small x \<Longrightarrow> small (toLowerCase x)"
  by (auto simp: small_def toLowerCase_def list_all_iff lower_unit_small)

lemma small_capitalizeWord: "small w \<Longrightarrow> small (capitalizeWord w)"
  by (cases w) (auto simp: small_def capitalizeWord_Nil capitalizeWord_Cons list_all_iff
      lower_unit_small dest: upper_unit_small)

lemma small_join: "small sep \<Longrightarrow> list_all small ws \<Longrightarrow> small (join sep ws)"
  by (induction sep ws rule: join.induct) (auto simp: small_def)

lemma small_split_on: "small x \<Longrightarrow> list_all small (split_on sep x)"
  using split_on_units[of _ sep x] by (auto simp: small_def list_all_iff)

lemma small_capitalizeWords: "small x \<Longrightarrow> small (capitalizeWords x)"
proof -
  assume "small x"
  then have "list_all small (map capitalizeWord (split_on hyphen x))"
    using small_split_on[of x hyphen] by (auto simp: list_all_iff small_capitalizeWord)
  moreover have "small [hyphen]" by (simp add: small_def hyphen_def)
  ultimately show ?thesis unfolding capitalizeWords_def by (rule small_join[rotated])
qed

lemma ampersand_percent: "ampersand \<notin> set (percent b)"
  by (auto simp: percent_def ampersand_def hex_digit_def)

lemma ampersand_escape: "ampersand \<notin> set (escape c)"
  by (auto simp: escape_def ampersand_percent)

lemma encodeURIComponent_small:
  "small x \<Longrightarrow> \<exists>y. encodeURIComponent x = Some y \<and> ampersand \<notin> set y"
proof (induction x)
  case Nil then show ?case by simp
next
  case (Cons c cs)
  then obtain y where y: "encodeURIComponent cs = Some y" "ampersand \<notin> set y"
    by (auto simp: small_def)
  have c: "c < 0x800" using Cons.prems by (simp add: small_def)
  show ?case
  proof (cases "unreserved c")
    case True
    then have "c \<noteq> ampersand" by (auto simp: unreserved_def ampersand_def)
    with True y show ?thesis by simp
  next
    case False
    with c y show ?thesis by (simp add: ampersand_escape)
  qed
qed

lemma map_throwing_encode:
  "list_all small vs \<Longrightarrow>
   \<exists>es. map encodeURIComponent vs = map Some es \<and>
        map_throwing (encode_param key) vs = Inr (map ((@) (js key)) es) \<and>
        list_all (\<lambda>y. ampersand \<notin> set y) es"
proof (induction vs)
  case Nil then show ?case by simp
next
  case (Cons v vs)
  then obtain es where es: "map encodeURIComponent vs = map Some es"
      "map_throwing (encode_param key) vs = Inr (map ((@) (js key)) es)"
      "list_all (\<lambda>y. ampersand \<notin> set y) es"
    by auto
  obtain y where y: "encodeURIComponent v = Some y" "ampersand \<notin> set y"
    using Cons.prems encodeURIComponent_small[of v] by auto
  have "map encodeURIComponent (v # vs) = map Some (y # es)"
    using es y by simp
  moreover have "map_throwing (encode_param key) (v # vs) = Inr (map ((@) (js key)) (y # es))"
    using es y by (simp add: encode_param_def)
  moreover have "list_all (\<lambda>y. ampersand \<notin> set y) (y # es)"
    using es y by simp
  ultimately show ?case by blast
qed

lemma queryString_small:
  assumes "list_all small dl" "list_all small hl"
  shows "\<exists>ds hs. map encodeURIComponent dl = map Some ds \<and>
           map encodeURIComponent hl = map Some hs \<and>
           list_all (\<lambda>y. ampersand \<notin> set y) ds \<and> list_all (\<lambda>y. ampersand \<notin> set y) hs \<and>
           queryString dl hl =
             Inr (join [ampersand] (map ((@) (js ''diet='')) ds) @ [ampersand] @
                  join [ampersand] (map ((@) (js ''health='')) hs))"
proof -
  obtain ds where ds: "map encodeURIComponent dl = map Some ds"
      "map_throwing (encode_param ''diet='') dl = Inr (map ((@) (js ''diet='')) ds)"
      "list_all (\<lambda>y. ampersand \<notin> set y) ds"
    using map_throwing_encode[OF assms(1)] by blast
  obtain hs where hs: "map encodeURIComponent hl = map Some hs"
      "map_throwing (encode_param ''health='') hl = Inr (map ((@) (js ''health='')) hs)"
      "list_all (\<lambda>y. ampersand \<notin> set y) hs"
    using map_throwing_encode[OF assms(2)] by blast
  have "queryString dl hl =
      Inr (join [ampersand] (map ((@) (js ''diet='')) ds) @ [ampersand] @
           join [ampersand] (map ((@) (js ''health='')) hs))"
    using ds(2) hs(2) by (simp add: queryString_def)
  with ds hs show ?thesis by blast
qed

lemma small_criteriaArray: "list_all small (criteriaArray (or_empty v))"
  by (cases v) (auto simp: list_all_iff small_js small_capitalizeWords)

lemma small_dietLower: "list_all small (dietCriteriaArrayLower req)"
  using small_criteriaArray[of "query_diet req"]
  by (auto simp: dietCriteriaArrayLower_def dietCriteriaArray_def list_all_iff small_toLowerCase)

lemma small_healthLower: "list_all small (healthCriteriaArrayLower req)"
  using small_criteriaArray[of "query_health req"]
  by (auto simp: healthCriteriaArrayLower_def healthCriteriaArray_def list_all_iff small_toLowerCase)

lemma queryString_total:
  "\<exists>qs. queryString (dietCriteriaArrayLower req) (healthCriteriaArrayLower req) = Inr qs"
  using queryString_small[OF small_dietLower small_healthLower] by blast

section \<open>The two branches of the handler\<close>

lemma getRecipes_sufficient:
  "Recipe_find e (store_query req) no_internal_fields w = Inr recipes \<Longrightarrow> 12 \<le> length recipes \<Longrightarrow>
   getRecipes e req w = (Json 200 (Recipes (selectedRecipes (sort_draws e) recipes)), w)"
  by (simp add: getRecipes_def)

lemma getRecipes_fallback:
  "Recipe_find e (store_query req) no_internal_fields w = Inr recipes \<Longrightarrow> length recipes < 12 \<Longrightarrow>
   queryString (dietCriteriaArrayLower req) (healthCriteriaArrayLower req) = Inr qs \<Longrightarrow>
   getRecipes e req w =
     (case fetchRecipes e (ampersand # qs) of
        ProviderThrows \<Rightarrow> (internal_error, w\<lparr>provider_calls := provider_calls w @ [ampersand # qs]\<rparr>)
      | NoData \<Rightarrow> (not_found, w\<lparr>provider_calls := provider_calls w @ [ampersand # qs]\<rparr>)
      | Data None \<Rightarrow> (not_found, w\<lparr>provider_calls := provider_calls w @ [ampersand # qs]\<rparr>)
      | Data (Some hits) \<Rightarrow>
          (case map_throwing map_hit (take 100 hits) of
             Inl x \<Rightarrow> (internal_error, w\<lparr>provider_calls := provider_calls w @ [ampersand # qs]\<rparr>)
           | Inr fetched \<Rightarrow>
               if insert_accepted e fetched
               then (Json 200 (Recipes (selectedRecipes (sort_draws e) (map plain_object fetched))),
                     w\<lparr>collection := collection w @ new_docs (next_id w) fetched,
                       next_id := next_id w + length fetched,
                       provider_calls := provider_calls w @ [ampersand # qs]\<rparr>)
               else (internal_error, w\<lparr>provider_calls := provider_calls w @ [ampersand # qs]\<rparr>)))"
  by (simp add: getRecipes_def fallback_def Recipe_insertMany_def Let_def
      split: provider_reply.splits option.splits sum.splits)

section \<open>Evaluated examples\<close>

lemmas js_eval = js_def capitalizeWords_def capitalizeWord_def toUpperCase_def toLowerCase_def
  upper_unit_def lower_unit_def hyphen_def ampersand_def

lemma project_new_docs: "map (project no_internal_fields) (new_docs n rs) = map plain_object rs"
  by (induction rs arbitrary: n) (auto simp: project_def no_internal_fields_def plain_object_def)

lemma length_new_docs: "length (new_docs n rs) = length rs"
  by (induction rs arbitrary: n) auto

lemma map_throwing_replicate: "f x = Inr y \<Longrightarrow> map_throwing f (replicate n x) = Inr (replicate n y)"
  by (induction n) auto

lemma sort_random_no_draws: "sort_random [] xs = xs"
  by (cases xs) auto

lemma map_hit_soup: "map_hit (Hit (Some soup)) = Inr plain_recipe"
  by (simp add: map_hit_def soup_def plain_recipe_def js_eval)

lemma find_empty_world: "Recipe_find (replying reply) q p empty_world = Inr []"
  by (simp add: Recipe_find_def replying_def empty_world_def)

lemma balanced_queryString:
  "queryString (dietCriteriaArrayLower balanced_request) (healthCriteriaArrayLower balanced_request)
     = Inr (js ''diet=balanced&'')"
  by (simp add: queryString_def dietCriteriaArrayLower_def healthCriteriaArrayLower_def
      dietCriteriaArray_def healthCriteriaArray_def balanced_request_def encode_param_def
      unreserved_def js_eval)

lemma store_query_unfiltered:
  "store_query unfiltered_request = \<lparr>q_dietLabels = None, q_healthLabels = None\<rparr>"
  by (simp add: store_query_def build_query_def dietCriteriaArray_def healthCriteriaArray_def
      unfiltered_request_def)

lemma find_twelve_world:
  "Recipe_find (replying reply) (store_query unfiltered_request) no_internal_fields twelve_world
     = Inr (replicate 12 (plain_object plain_recipe))"
  by (simp add: Recipe_find_def replying_def twelve_world_def store_query_unfiltered matches_def
      project_new_docs)

lemma mixed_case_queryString:
  "queryString (dietCriteriaArrayLower mixed_case_request) (healthCriteriaArrayLower mixed_case_request)
     = Inr (js ''diet=balanced&diet=low-carb&health=vegan'')"
  by (simp add: queryString_def dietCriteriaArrayLower_def healthCriteriaArrayLower_def
      dietCriteriaArray_def healthCriteriaArray_def mixed_case_request_def encode_param_def
      unreserved_def js_eval)

lemma sharp_s_queryString:
  "queryString (dietCriteriaArrayLower sharp_s_request) (healthCriteriaArrayLower sharp_s_request)
     = Inr (js ''diet=ss&'')"
  by (simp add: queryString_def dietCriteriaArrayLower_def healthCriteriaArrayLower_def
      dietCriteriaArray_def healthCriteriaArray_def sharp_s_request_def encode_param_def
      unreserved_def js_eval)

lemma micro_queryString:
  "queryString (dietCriteriaArrayLower micro_request) (healthCriteriaArrayLower micro_request)
     = Inr (js ''diet=%CE%BC&'')"
  by (simp add: queryString_def dietCriteriaArrayLower_def healthCriteriaArrayLower_def
      dietCriteriaArray_def healthCriteriaArray_def micro_request_def encode_param_def
      unreserved_def escape_def utf8_def percent_def hex_digit_def js_eval)

lemma provider_calls_fallback:
  "Recipe_find e (store_query req) no_internal_fields w = Inr recipes \<Longrightarrow> length recipes < 12 \<Longrightarrow>
   queryString (dietCriteriaArrayLower req) (healthCriteriaArrayLower req) = Inr qs \<Longrightarrow>
   provider_calls (snd (getRecipes e req w)) = provider_calls w @ [ampersand # qs]"
  by (simp add: getRecipes_fallback split: provider_reply.splits option.splits sum.splits)

lemma take_hundred_and_one: "take 100 hundred_and_one_hits = replicate 100 (Hit (Some soup))"
  by (simp add: hundred_and_one_hits_def)

section \<open>Store first, provider as fallback\<close>



text \<open>
  C2. In the fallback, when the provider's reply is falsy or has no \<open>hits\<close>, the response
  is 404 with the message \<open>No recipes found\<close>, and the collection and its next
  identifier are what they were: nothing is inserted.
\<close>

theorem C2_no_hits_not_found:
  assumes "Recipe_find e (store_query req) no_internal_fields w = Inr recipes"
    and "length recipes < 12"
    and "queryString (dietCriteriaArrayLower req) (healthCriteriaArrayLower req) = Inr qs"
    and "fetchRecipes e (ampersand # qs) = Data None \<or> fetchRecipes e (ampersand # qs) = NoData"
  shows "fst (getRecipes e req w) = Json 404 (ErrorMessage ''No recipes found'') \<and>
         collection (snd (getRecipes e req w)) = collection w \<and>
         next_id (snd (getRecipes e req w)) = next_id w"
  using assms(4) getRecipes_fallback [OF assms(1-3)]
  by (auto simp: not_found_def)

theorem C2_no_hits_not_found_witness:
  "Recipe_find (replying (Data None)) (store_query balanced_request) no_internal_fields empty_world = Inr [] \<and>
   queryString (dietCriteriaArrayLower balanced_request) (healthCriteriaArrayLower balanced_request)
     = Inr (js ''diet=balanced&'') \<and>
   fetchRecipes (replying (Data None)) (ampersand # js ''diet=balanced&'') = Data None \<and>
   fst (getRecipes (replying (Data None)) balanced_request empty_world)
     = Json 404 (ErrorMessage ''No recipes found'') \<and>
   collection (snd (getRecipes (replying (Data None)) balanced_request empty_world))
     = collection empty_world"
proof -
  have f: "Recipe_find (replying (Data None)) (store_query balanced_request) no_internal_fields empty_world = Inr []"
    by (rule find_empty_world)
  have l: "length ([] :: item list) < 12" by simp
  have r: "fetchRecipes (replying (Data None)) (ampersand # js ''diet=balanced&'') = Data None \<or>
           fetchRecipes (replying (Data None)) (ampersand # js ''diet=balanced&'') = NoData"
    by (simp add: replying_def)
  show ?thesis
    using f balanced_queryString C2_no_hits_not_found [OF f l balanced_queryString r]
    by (simp add: replying_def)
qed

text \<open>
  C3 (the code differs). The claim wants \<open>caloriesPerServing\<close> left unset when the hit has
  no \<open>yield\<close>. The code tests only \<open>calories\<close> before it divides: for the hit with 500
  calories and no yield the mapped record has \<open>servingSize\<close> null and
  \<open>caloriesPerServing\<close> NaN.
\<close>

theorem C3_absent_yield_gives_NaN:
  "hit_yield soup_without_yield = None \<and>
   (\<exists>r. map_hit (Hit (Some soup_without_yield)) = Inr r \<and>
        servingSize r = None \<and> caloriesPerServing r = Some NaN)"
  by (simp add: map_hit_def soup_without_yield_def soup_def)

section \<open>Sampling\<close>

lemma sort_random_mset: "mset (sort_random ks xs) = mset xs"
proof (induction ks xs rule: sort_random.induct)
  case (1 ks) show ?case by simp
next
  case (2 v va) show ?case by simp
next
  case (3 k ks v va)
  define xs where "xs = v # va"
  define i where "i = k mod length xs"
  have i: "i < length xs" by (simp add: i_def xs_def)
  have "xs = take i xs @ xs ! i # drop (Suc i) xs"
    using i by (rule id_take_nth_drop)
  then have "mset xs = mset (take i xs @ drop (Suc i) xs) + {#xs ! i#}"
    by (metis mset.simps(2) mset_append union_mset_add_mset_right add.right_neutral
        add_mset_add_single)
  moreover have "mset (sort_random ks (take i xs @ drop (Suc i) xs)) = mset (take i xs @ drop (Suc i) xs)"
    using 3 by (simp add: i_def xs_def)
  moreover have "sort_random (k # ks) xs = xs ! i # sort_random ks (take i xs @ drop (Suc i) xs)"
    by (simp add: i_def xs_def)
  ultimately show ?case by (simp add: xs_def)
qed

lemma selectedRecipes_sample:
  "(\<exists>p. mset p = mset ws \<and> selectedRecipes ks ws = take 12 p) \<and>
   length (selectedRecipes ks ws) = min 12 (length ws) \<and>
   set (selectedRecipes ks ws) \<subseteq> set ws"
proof -
  let ?p = "sort_random ks ws"
  have m: "mset ?p = mset ws" by (rule sort_random_mset)
  then have "length ?p = length ws" by (rule mset_eq_length)
  moreover have "set ?p = set ws" using m by (rule mset_eq_setD)
  moreover have "set (take 12 ?p) \<subseteq> set ?p" by (rule set_take_subset)
  ultimately show ?thesis
    using m by (auto simp: selectedRecipes_def min_def)
qed

text \<open>
  C4. A successful response is drawn from a working set that is either the store's matches
  (at least 12 of them) or the mapped hits of the provider: it is the first 12 elements of
  a permutation of the working set, so its size is the minimum of 12 and the size of the
  working set, and each of its records is a record of the working set.
\<close>

theorem C4_sample_of_working_set:
  assumes "fst (getRecipes e req w) = Json 200 (Recipes out)"
  shows "\<exists>ws. (Recipe_find e (store_query req) no_internal_fields w = Inr ws \<and> 12 \<le> length ws \<or>
               (\<exists>q hits fetched. fetchRecipes e q = Data (Some hits) \<and>
                   map_throwing map_hit (take 100 hits) = Inr fetched \<and>
                   ws = map plain_object fetched)) \<and>
              (\<exists>p. mset p = mset ws \<and> out = take 12 p) \<and>
              length out = min 12 (length ws) \<and>
              set out \<subseteq> set ws"
proof (cases "Recipe_find e (store_query req) no_internal_fields w")
  case (Inl x)
  then have "fst (getRecipes e req w) = internal_error" by (simp add: getRecipes_def)
  with assms show ?thesis by (simp add: internal_error_def)
next
  case (Inr recipes)
  show ?thesis
  proof (cases "12 \<le> length recipes")
    case True
    then have "out = selectedRecipes (sort_draws e) recipes"
      using assms getRecipes_sufficient [OF Inr True] by simp
    with Inr True selectedRecipes_sample [of recipes "sort_draws e"] show ?thesis by blast
  next
    case False
    then have short: "length recipes < 12" by simp
    obtain qs where qs: "queryString (dietCriteriaArrayLower req) (healthCriteriaArrayLower req) = Inr qs"
      using queryString_total by blast
    obtain hits fetched where f: "fetchRecipes e (ampersand # qs) = Data (Some hits)"
        "map_throwing map_hit (take 100 hits) = Inr fetched"
        "out = selectedRecipes (sort_draws e) (map plain_object fetched)"
      using assms unfolding getRecipes_fallback [OF Inr short qs]
      by (auto simp: internal_error_def not_found_def
          split: provider_reply.splits option.splits sum.splits if_splits)
    with selectedRecipes_sample [of "map plain_object fetched" "sort_draws e"] show ?thesis
      by blast
  qed
qed

theorem C4_sample_of_working_set_witness:
  "fst (getRecipes (replying NoData) unfiltered_request twelve_world)
     = Json 200 (Recipes (replicate 12 (plain_object plain_recipe))) \<and>
   (\<exists>ws. (Recipe_find (replying NoData) (store_query unfiltered_request) no_internal_fields twelve_world = Inr ws \<and>
           12 \<le> length ws \<or>
           (\<exists>q hits fetched. fetchRecipes (replying NoData) q = Data (Some hits) \<and>
               map_throwing map_hit (take 100 hits) = Inr fetched \<and>
               ws = map plain_object fetched)) \<and>
          (\<exists>p. mset p = mset ws \<and> replicate 12 (plain_object plain_recipe) = take 12 p) \<and>
          length (replicate 12 (plain_object plain_recipe)) = min 12 (length ws) \<and>
          set (replicate 12 (plain_object plain_recipe)) \<subseteq> set ws)"
proof -
  have h: "fst (getRecipes (replying NoData) unfiltered_request twelve_world)
     = Json 200 (Recipes (replicate 12 (plain_object plain_recipe)))"
    using getRecipes_sufficient [OF find_twelve_world [of NoData]]
    by (simp add: selectedRecipes_def replying_def sort_random_no_draws)
  show ?thesis
    using h C4_sample_of_working_set [OF h] by blast
qed

section \<open>The store query\<close>

lemma criteriaArray_tokens:
  "criteriaArray (or_empty v) = map (\<lambda>t. capitalizeWords (js t)) (tokens v)"
  by (cases v) simp_all

lemma matches_store_query:
  "matches (store_query req) r \<longleftrightarrow>
     set (map (\<lambda>t. capitalizeWords (js t)) (tokens (query_diet req))) \<subseteq> set (dietLabels r) \<and>
     set (map (\<lambda>t. capitalizeWords (js t)) (tokens (query_health req))) \<subseteq> set (healthLabels r)"
  by (auto simp: matches_def store_query_def build_query_def dietCriteriaArray_def
      healthCriteriaArray_def criteriaArray_tokens all_op_def list_all_iff)

text \<open>
  C5. When the store answers, the lookup returns the bodies (the documents without
  \<open>_id\<close> and \<open>__v\<close>) of exactly the documents whose \<open>dietLabels\<close> hold the capitalised
  form of every supplied diet token and whose \<open>healthLabels\<close> hold that of every supplied
  health token; a category that supplies no token (a missing or empty parameter) puts no
  key into the query.
\<close>

theorem C5_store_query_conjunctive:
  assumes "find_available e"
  shows "Recipe_find e (store_query req) no_internal_fields w =
           Inr (map (\<lambda>d. \<lparr>item_id = None, item_v = None, item_fields = doc_body d\<rparr>)
                 (filter
                   (\<lambda>d. set (map (\<lambda>t. capitalizeWords (js t)) (tokens (query_diet req)))
                           \<subseteq> set (dietLabels (doc_body d)) \<and>
                        set (map (\<lambda>t. capitalizeWords (js t)) (tokens (query_health req)))
                           \<subseteq> set (healthLabels (doc_body d)))
                   (collection w)))
       \<and> (tokens (query_diet req) = [] \<longrightarrow> q_dietLabels (store_query req) = None)
       \<and> (tokens (query_health req) = [] \<longrightarrow> q_healthLabels (store_query req) = None)"
proof (intro conjI impI)
  have "project no_internal_fields = (\<lambda>d. \<lparr>item_id = None, item_v = None, item_fields = doc_body d\<rparr>)"
    by (rule ext) (simp add: project_def no_internal_fields_def)
  then show "Recipe_find e (store_query req) no_internal_fields w =
           Inr (map (\<lambda>d. \<lparr>item_id = None, item_v = None, item_fields = doc_body d\<rparr>)
                 (filter
                   (\<lambda>d. set (map (\<lambda>t. capitalizeWords (js t)) (tokens (query_diet req)))
                           \<subseteq> set (dietLabels (doc_body d)) \<and>
                        set (map (\<lambda>t. capitalizeWords (js t)) (tokens (query_health req)))
                           \<subseteq> set (healthLabels (doc_body d)))
                   (collection w)))"
    using assms by (simp add: Recipe_find_def matches_store_query)
next
  assume "tokens (query_diet req) = []"
  then show "q_dietLabels (store_query req) = None"
    by (simp add: store_query_def build_query_def dietCriteriaArray_def criteriaArray_tokens)
next
  assume "tokens (query_health req) = []"
  then show "q_healthLabels (store_query req) = None"
    by (simp add: store_query_def build_query_def healthCriteriaArray_def criteriaArray_tokens)
qed

lemma plain_filter_new_docs:
  "map (\<lambda>d. \<lparr>item_id = None, item_v = None, item_fields = doc_body d\<rparr>)
     (filter (\<lambda>d. P (doc_body d)) (new_docs n rs)) = map plain_object (filter P rs)"
  by (induction rs arbitrary: n) (auto simp: plain_object_def)

theorem C5_store_query_conjunctive_witness:
  "find_available (replying NoData) \<and>
   Recipe_find (replying NoData) (store_query balanced_request) no_internal_fields twelve_world
     = Inr (replicate 12 \<lparr>item_id = None, item_v = None, item_fields = plain_recipe\<rparr>) \<and>
   Recipe_find (replying NoData)
     (store_query \<lparr>query_diet = Multiple [''balanced'', ''low-carb''], query_health = Absent\<rparr>)
     no_internal_fields twelve_world = Inr []"
proof -
  have a: "find_available (replying NoData)" by (simp add: replying_def)
  have t: "tokens (query_diet balanced_request) = [''balanced'']"
      "tokens (query_health balanced_request) = []"
    by (simp_all add: balanced_request_def)
  have c: "capitalizeWords (js ''balanced'') = js ''Balanced''"
      "capitalizeWords (js ''low-carb'') = js ''Low-Carb''"
    by (simp_all add: js_eval)
  have d: "dietLabels plain_recipe = [js ''Balanced'']"
    by (simp add: plain_recipe_def)
  have n: "js ''Low-Carb'' \<noteq> js ''Balanced''"
    by (simp add: js_def)
  have w: "collection twelve_world = new_docs 0 (replicate 12 plain_recipe)"
    by (simp add: twelve_world_def)
  have one: "Recipe_find (replying NoData) (store_query balanced_request) no_internal_fields
      twelve_world = Inr (replicate 12 \<lparr>item_id = None, item_v = None, item_fields = plain_recipe\<rparr>)"
    using C5_store_query_conjunctive [OF a, of balanced_request twelve_world]
    by (simp add: t c d w plain_object_def
        plain_filter_new_docs [of "\<lambda>r. js ''Balanced'' \<in> set (dietLabels r)"])
  have two: "Recipe_find (replying NoData)
      (store_query \<lparr>query_diet = Multiple [''balanced'', ''low-carb''], query_health = Absent\<rparr>)
      no_internal_fields twelve_world = Inr []"
    using C5_store_query_conjunctive [OF a,
        of "\<lparr>query_diet = Multiple [''balanced'', ''low-carb''], query_health = Absent\<rparr>" twelve_world]
    by (simp add: c d n w
        plain_filter_new_docs
          [of "\<lambda>r. js ''Balanced'' \<in> set (dietLabels r) \<and> js ''Low-Carb'' \<in> set (dietLabels r)"])
  show ?thesis using a one two by simp
qed

section \<open>The query string sent to the provider\<close>

lemma split_on_join_append:
  "ws \<noteq> [] \<Longrightarrow> (\<And>w. w \<in> set ws \<Longrightarrow> sep \<notin> set w) \<Longrightarrow>
   split_on sep (join [sep] ws @ sep # rest) = ws @ split_on sep rest"
proof (induction ws)
  case Nil then show ?case by simp
next
  case (Cons w ws)
  show ?case
  proof (cases ws)
    case Nil
    then show ?thesis using Cons.prems by (simp add: split_on_append)
  next
    case (Cons v vs)
    have "split_on sep (join [sep] ws @ sep # rest) = ws @ split_on sep rest"
      using Cons.IH Cons.prems Cons by simp
    then show ?thesis using Cons Cons.prems by (simp add: split_on_append)
  qed
qed

lemma parameters_queryString:
  assumes "\<And>d. d \<in> set D \<Longrightarrow> ampersand \<notin> set d \<and> d \<noteq> []"
    and "\<And>h. h \<in> set H \<Longrightarrow> ampersand \<notin> set h \<and> h \<noteq> []"
  shows "parameters (ampersand # join [ampersand] D @ [ampersand] @ join [ampersand] H) = D @ H"
proof -
  have keepD: "filter (\<lambda>p. p \<noteq> []) D = D" using assms(1) by (simp add: filter_id_conv)
  have keepH: "filter (\<lambda>p. p \<noteq> []) H = H" using assms(2) by (simp add: filter_id_conv)
  have tail: "filter (\<lambda>p. p \<noteq> []) (split_on ampersand (join [ampersand] H)) = H"
  proof (cases H)
    case Nil then show ?thesis by simp
  next
    case (Cons h hs)
    then have "split_on ampersand (join [ampersand] H) = H"
      using assms(2) by (intro split_on_join) auto
    then show ?thesis by (simp add: keepH)
  qed
  have "filter (\<lambda>p. p \<noteq> [])
          (split_on ampersand (join [ampersand] D @ ampersand # join [ampersand] H)) = D @ H"
  proof (cases D)
    case Nil then show ?thesis by (simp add: tail)
  next
    case (Cons d ds)
    then have "split_on ampersand (join [ampersand] D @ ampersand # join [ampersand] H)
        = D @ split_on ampersand (join [ampersand] H)"
      using assms(1) by (intro split_on_join_append) auto
    then show ?thesis by (simp add: keepD tail)
  qed
  then show ?thesis by (simp add: parameters_def)
qed

lemma encodeURIComponent_no_ampersand:
  "encodeURIComponent x = Some y \<Longrightarrow> ampersand \<notin> set y"
proof (induction x arbitrary: y rule: encodeURIComponent.induct)
  case 1
  then show ?case by simp
next
  case (2 c cs)
  show ?case
  proof (cases "unreserved c")
    case True
    then have "c \<noteq> ampersand" by (auto simp: unreserved_def ampersand_def)
    with True 2 show ?thesis by auto
  next
    case False
    note unres = this
    show ?thesis
    proof (cases "c < 0xD800 \<or> 0xDFFF < c")
      case True
      with unres 2 show ?thesis by (auto simp: ampersand_escape)
    next
      case False
      with unres 2 show ?thesis
        by (auto simp: ampersand_escape split: if_splits list.splits)
    qed
  qed
qed

lemma map_throwing_encodable:
  "list_all (\<lambda>v. encodeURIComponent v \<noteq> None) vs \<Longrightarrow>
   \<exists>es. map encodeURIComponent vs = map Some es \<and>
        map_throwing (encode_param key) vs = Inr (map ((@) (js key)) es) \<and>
        list_all (\<lambda>y. ampersand \<notin> set y) es"
proof (induction vs)
  case Nil then show ?case by simp
next
  case (Cons v vs)
  then obtain es where es: "map encodeURIComponent vs = map Some es"
      "map_throwing (encode_param key) vs = Inr (map ((@) (js key)) es)"
      "list_all (\<lambda>y. ampersand \<notin> set y) es"
    by auto
  obtain y where y: "encodeURIComponent v = Some y"
    using Cons.prems by auto
  then have a: "ampersand \<notin> set y" by (rule encodeURIComponent_no_ampersand)
  have "map encodeURIComponent (v # vs) = map Some (y # es)"
    using es y by simp
  moreover have "map_throwing (encode_param key) (v # vs) = Inr (map ((@) (js key)) (y # es))"
    using es y by (simp add: encode_param_def)
  moreover have "list_all (\<lambda>y. ampersand \<notin> set y) (y # es)"
    using es a by simp
  ultimately show ?case by blast
qed

lemma queryString_encodable:
  assumes "list_all (\<lambda>v. encodeURIComponent v \<noteq> None) dl"
    and "list_all (\<lambda>v. encodeURIComponent v \<noteq> None) hl"
  shows "\<exists>ds hs. map encodeURIComponent dl = map Some ds \<and>
           map encodeURIComponent hl = map Some hs \<and>
           list_all (\<lambda>y. ampersand \<notin> set y) ds \<and> list_all (\<lambda>y. ampersand \<notin> set y) hs \<and>
           queryString dl hl =
             Inr (join [ampersand] (map ((@) (js ''diet='')) ds) @ [ampersand] @
                  join [ampersand] (map ((@) (js ''health='')) hs))"
proof -
  obtain ds where ds: "map encodeURIComponent dl = map Some ds"
      "map_throwing (encode_param ''diet='') dl = Inr (map ((@) (js ''diet='')) ds)"
      "list_all (\<lambda>y. ampersand \<notin> set y) ds"
    using map_throwing_encodable [OF assms(1)] by blast
  obtain hs where hs: "map encodeURIComponent hl = map Some hs"
      "map_throwing (encode_param ''health='') hl = Inr (map ((@) (js ''health='')) hs)"
      "list_all (\<lambda>y. ampersand \<notin> set y) hs"
    using map_throwing_encodable [OF assms(2)] by blast
  have "queryString dl hl =
      Inr (join [ampersand] (map ((@) (js ''diet='')) ds) @ [ampersand] @
           join [ampersand] (map ((@) (js ''health='')) hs))"
    using ds(2) hs(2) by (simp add: queryString_def)
  with ds hs show ?thesis by blast
qed

lemma provider_calls_fallback_in:
  "Recipe_find e (store_query_in cs req) no_internal_fields w = Inr recipes \<Longrightarrow>
   length recipes < 12 \<Longrightarrow>
   queryString (dietCriteriaArrayLower_in cs req) (healthCriteriaArrayLower_in cs req) = Inr qs \<Longrightarrow>
   provider_calls (snd (getRecipes_in cs e req w)) = provider_calls w @ [ampersand # qs]"
  by (simp add: getRecipes_in_def fallback_def Recipe_insertMany_def Let_def
      split: provider_reply.splits option.splits sum.splits)

text \<open>
  C6 (amended). For every case mapping that lower-cases each side of a hyphen separately,
  and every request, with tokens of any code units: in the fallback, when each supplied
  token's lower-case form can be URI-encoded (it holds no lone surrogate) and each
  hyphen-separated segment of each supplied token has the same lower-case form after
  capitalisation as before, the query string sent to the provider has as its parameters
  one \<open>diet=\<close> parameter for each supplied diet token followed by one \<open>health=\<close>
  parameter for each supplied health token, and the value of each is the URI-encoded
  lower-case form of the token as it was supplied. A missing parameter and an empty single
  parameter supply no token.
\<close>

theorem C6_provider_query_parameters:
  assumes "lowers_around_hyphen cs"
    and "Recipe_find e (store_query_in cs req) no_internal_fields w = Inr recipes"
    and "length recipes < 12"
    and "list_all (\<lambda>t. list_all (lowers_back cs) (split_on hyphen t)) (supplied req)"
    and "list_all (\<lambda>t. encodeURIComponent (lower_of cs t) \<noteq> None) (supplied req)"
  shows "\<exists>q ds hs.
           provider_calls (snd (getRecipes_in cs e req w)) = provider_calls w @ [q] \<and>
           map (\<lambda>t. encodeURIComponent (lower_of cs t)) (tokens_any (diet_value req)) = map Some ds \<and>
           map (\<lambda>t. encodeURIComponent (lower_of cs t)) (tokens_any (health_value req)) = map Some hs \<and>
           parameters q = map ((@) (js ''diet='')) ds @ map ((@) (js ''health='')) hs"
proof -
  have dl: "dietCriteriaArrayLower_in cs req = map (lower_of cs) (tokens_any (diet_value req))"
    using assms(1,4)
    by (simp add: dietCriteriaArrayLower_in_def dietCriteriaArray_in_def supplied_def lowered_tokens_any)
  have hl: "healthCriteriaArrayLower_in cs req = map (lower_of cs) (tokens_any (health_value req))"
    using assms(1,4)
    by (simp add: healthCriteriaArrayLower_in_def healthCriteriaArray_in_def supplied_def lowered_tokens_any)
  have de: "list_all (\<lambda>v. encodeURIComponent v \<noteq> None) (dietCriteriaArrayLower_in cs req)"
    using assms(5) by (simp add: dl supplied_def list_all_iff)
  have he: "list_all (\<lambda>v. encodeURIComponent v \<noteq> None) (healthCriteriaArrayLower_in cs req)"
    using assms(5) by (simp add: hl supplied_def list_all_iff)
  obtain ds hs where enc:
      "map encodeURIComponent (dietCriteriaArrayLower_in cs req) = map Some ds"
      "map encodeURIComponent (healthCriteriaArrayLower_in cs req) = map Some hs"
      "list_all (\<lambda>y. ampersand \<notin> set y) ds" "list_all (\<lambda>y. ampersand \<notin> set y) hs"
      and qs: "queryString (dietCriteriaArrayLower_in cs req) (healthCriteriaArrayLower_in cs req) =
        Inr (join [ampersand] (map ((@) (js ''diet='')) ds) @ [ampersand] @
             join [ampersand] (map ((@) (js ''health='')) hs))"
    using queryString_encodable [OF de he] by blast
  let ?qs = "join [ampersand] (map ((@) (js ''diet='')) ds) @ [ampersand] @
             join [ampersand] (map ((@) (js ''health='')) hs)"
  have calls: "provider_calls (snd (getRecipes_in cs e req w)) = provider_calls w @ [ampersand # ?qs]"
    by (rule provider_calls_fallback_in [OF assms(2,3) qs])
  have key: "ampersand \<notin> set (js ''diet='')" "ampersand \<notin> set (js ''health='')"
    by (simp_all add: js_def ampersand_def)
  have D: "ampersand \<notin> set d \<and> d \<noteq> []" if "d \<in> set (map ((@) (js ''diet='')) ds)" for d
    using that enc(3) key by (auto simp: list_all_iff js_def)
  have H: "ampersand \<notin> set h \<and> h \<noteq> []" if "h \<in> set (map ((@) (js ''health='')) hs)" for h
    using that enc(4) key by (auto simp: list_all_iff js_def)
  have "parameters (ampersand # ?qs) = map ((@) (js ''diet='')) ds @ map ((@) (js ''health='')) hs"
    using D H by (rule parameters_queryString)
  moreover have "map (\<lambda>t. encodeURIComponent (lower_of cs t)) (tokens_any (diet_value req)) = map Some ds"
    using enc(1) by (simp add: dl comp_def)
  moreover have "map (\<lambda>t. encodeURIComponent (lower_of cs t)) (tokens_any (health_value req)) = map Some hs"
    using enc(2) by (simp add: hl comp_def)
  ultimately show ?thesis using calls by blast
qed

text \<open>
  The embedded tables and the tokens \<open>Balanced\<close>, \<open>LOW-carb\<close> and \<open>Vegan\<close>.
\<close>

theorem C6_provider_query_parameters_witness:
  "lowers_around_hyphen embedded_casing \<and>
   Recipe_find (replying (Data None)) (store_query_in embedded_casing (any_request_of mixed_case_request))
     no_internal_fields empty_world = Inr [] \<and>
   list_all (\<lambda>t. list_all (lowers_back embedded_casing) (split_on hyphen t))
     (supplied (any_request_of mixed_case_request)) \<and>
   list_all (\<lambda>t. encodeURIComponent (lower_of embedded_casing t) \<noteq> None)
     (supplied (any_request_of mixed_case_request)) \<and>
   provider_calls (snd (getRecipes (replying (Data None)) mixed_case_request empty_world))
     = [js ''&diet=balanced&diet=low-carb&health=vegan''] \<and>
   (\<exists>q ds hs.
       provider_calls (snd (getRecipes_in embedded_casing (replying (Data None))
           (any_request_of mixed_case_request) empty_world))
         = provider_calls empty_world @ [q] \<and>
       map (\<lambda>t. encodeURIComponent (lower_of embedded_casing t))
           (tokens_any (diet_value (any_request_of mixed_case_request))) = map Some ds \<and>
       map (\<lambda>t. encodeURIComponent (lower_of embedded_casing t))
           (tokens_any (health_value (any_request_of mixed_case_request))) = map Some hs \<and>
       parameters q = map ((@) (js ''diet='')) ds @ map ((@) (js ''health='')) hs)"
proof -
  have f: "Recipe_find (replying (Data None))
      (store_query_in embedded_casing (any_request_of mixed_case_request))
      no_internal_fields empty_world = Inr []"
    by (rule find_empty_world)
  have f': "Recipe_find (replying (Data None)) (store_query mixed_case_request)
      no_internal_fields empty_world = Inr []"
    by (rule find_empty_world)
  have l: "length ([] :: item list) < 12" by simp
  have s: "supplied (any_request_of mixed_case_request) = [js ''Balanced'', js ''LOW-carb'', js ''Vegan'']"
    by (simp add: supplied_def any_request_of_def mixed_case_request_def js_def)
  have b: "list_all (\<lambda>t. list_all (lowers_back embedded_casing) (split_on hyphen t))
      (supplied (any_request_of mixed_case_request))"
    unfolding s
    by (simp add: lowers_back_def capitalizeWord_embedded lower_of_embedded js_eval)
  have n: "list_all (\<lambda>t. encodeURIComponent (lower_of embedded_casing t) \<noteq> None)
      (supplied (any_request_of mixed_case_request))"
    unfolding s
    by (simp add: lower_of_embedded js_eval unreserved_def)
  have c: "provider_calls (snd (getRecipes (replying (Data None)) mixed_case_request empty_world))
     = [js ''&diet=balanced&diet=low-carb&health=vegan'']"
    using provider_calls_fallback [OF f' l mixed_case_queryString]
    by (simp add: empty_world_def js_def ampersand_def)
  show ?thesis
    using f b n c embedded_lowers_around_hyphen
      C6_provider_query_parameters [OF embedded_lowers_around_hyphen f l b n]
    by blast
qed

text \<open>
  The token that is the sharp s alone is sent as \<open>diet=ss\<close>: the lower-casing is applied
  to the capitalised form \<open>SS\<close>, while the lower-case form of the token itself is the sharp
  s, whose encoding is \<open>%C3%9F\<close>. The token that is the micro sign alone is sent as
  \<open>diet=%CE%BC\<close>, the Greek small mu that its upper-case form lower-cases to, while its
  own lower-case form is the micro sign, \<open>%C2%B5\<close>.
\<close>

theorem C6_sharp_s_and_micro_counterexample:
  "\<not> lowers_back embedded_casing (js [CHR 0xDF]) \<and>
   provider_calls (snd (getRecipes_in embedded_casing (replying (Data None))
      (any_request_of sharp_s_request) empty_world)) = [js ''&diet=ss&''] \<and>
   parameters (js ''&diet=ss&'') = [js ''diet=ss''] \<and>
   encodeURIComponent (lower_of embedded_casing (js [CHR 0xDF])) = Some (js ''%C3%9F'') \<and>
   \<not> lowers_back embedded_casing (js [CHR 0xB5]) \<and>
   provider_calls (snd (getRecipes_in embedded_casing (replying (Data None))
      (any_request_of micro_request) empty_world)) = [js ''&diet=%CE%BC&''] \<and>
   parameters (js ''&diet=%CE%BC&'') = [js ''diet=%CE%BC''] \<and>
   encodeURIComponent (lower_of embedded_casing (js [CHR 0xB5])) = Some (js ''%C2%B5'')"
proof -
  have l: "length ([] :: item list) < 12" by simp
  have fs: "Recipe_find (replying (Data None)) (store_query sharp_s_request) no_internal_fields
      empty_world = Inr []"
    by (rule find_empty_world)
  have fm: "Recipe_find (replying (Data None)) (store_query micro_request) no_internal_fields
      empty_world = Inr []"
    by (rule find_empty_world)
  have cs: "provider_calls (snd (getRecipes (replying (Data None)) sharp_s_request empty_world))
     = [js ''&diet=ss&'']"
    using provider_calls_fallback [OF fs l sharp_s_queryString]
    by (simp add: empty_world_def js_def ampersand_def)
  have cm: "provider_calls (snd (getRecipes (replying (Data None)) micro_request empty_world))
     = [js ''&diet=%CE%BC&'']"
    using provider_calls_fallback [OF fm l micro_queryString]
    by (simp add: empty_world_def js_def ampersand_def)
  have p: "parameters (js ''&diet=ss&'') = [js ''diet=ss'']"
      "parameters (js ''&diet=%CE%BC&'') = [js ''diet=%CE%BC'']"
    by (simp_all add: parameters_def js_def ampersand_def)
  have v: "encodeURIComponent (toLowerCase (js [CHR 0xDF])) = Some (js ''%C3%9F'')"
      "encodeURIComponent (toLowerCase (js [CHR 0xB5])) = Some (js ''%C2%B5'')"
    by (simp_all add: js_eval unreserved_def escape_def utf8_def percent_def hex_digit_def)
  have n: "\<not> lowers_back embedded_casing (js [CHR 0xDF])"
      "\<not> lowers_back embedded_casing (js [CHR 0xB5])"
    by (simp_all add: lowers_back_def capitalizeWord_embedded lower_of_embedded js_eval)
  show ?thesis
    using cs cm p v n by (simp add: getRecipes_embedded lower_of_embedded)
qed

text \<open>
  Why the condition is on the whole segment: in the token \<open>a\<Sigma>\<close> the first unit
  lower-cases back after upper-casing, yet the token is sent as \<open>diet=a%CF%83\<close> (the
  sigma is lower-cased without the unit before it), while the lower-case form of the
  token ends in the final sigma, \<open>a%CF%82\<close>.
\<close>

lemma final_sigma_example:
  "lower_of sigma_casing (upper_of sigma_casing [0x61]) = lower_of sigma_casing [0x61] \<and>
   \<not> lowers_back sigma_casing [0x61, 0x3A3] \<and>
   provider_calls (snd (getRecipes_in sigma_casing (replying (Data None)) sigma_request empty_world))
     = [js ''&diet=a%CF%83&''] \<and>
   encodeURIComponent (lower_of sigma_casing [0x61, 0x3A3]) = Some (js ''a%CF%82'')"
proof -
  have a: "lower_of sigma_casing (upper_of sigma_casing [0x61]) = lower_of sigma_casing [0x61]"
    by (simp add: sigma_casing_def toUpperCase_def upper_unit_def lower_unit_def cased_def)
  have b: "\<not> lowers_back sigma_casing [0x61, 0x3A3]"
    by (simp add: lowers_back_def capitalizeWord_in_def sigma_casing_def toUpperCase_def
        upper_unit_def lower_unit_def cased_def)
  have f: "Recipe_find (replying (Data None)) (store_query_in sigma_casing sigma_request)
      no_internal_fields empty_world = Inr []"
    by (rule find_empty_world)
  have q: "queryString (dietCriteriaArrayLower_in sigma_casing sigma_request)
      (healthCriteriaArrayLower_in sigma_casing sigma_request) = Inr (js ''diet=a%CF%83&'')"
    by (simp add: queryString_def dietCriteriaArrayLower_in_def healthCriteriaArrayLower_in_def
        dietCriteriaArray_in_def healthCriteriaArray_in_def sigma_request_def encode_param_def
        capitalizeWords_in_def capitalizeWord_in_def sigma_casing_def toUpperCase_def
        upper_unit_def lower_unit_def cased_def unreserved_def escape_def utf8_def percent_def
        hex_digit_def js_def hyphen_def ampersand_def)
  have c: "provider_calls (snd (getRecipes_in sigma_casing (replying (Data None)) sigma_request
      empty_world)) = [js ''&diet=a%CF%83&'']"
    using provider_calls_fallback_in [OF f _ q]
    by (simp add: empty_world_def js_def ampersand_def)
  have e: "encodeURIComponent (lower_of sigma_casing [0x61, 0x3A3]) = Some (js ''a%CF%82'')"
    by (simp add: sigma_casing_def lower_unit_def upper_unit_def cased_def unreserved_def
        escape_def utf8_def percent_def hex_digit_def js_def)
  show ?thesis using a b c e by simp
qed

section \<open>The label normaliser\<close>

text \<open>
  C7 (amended). For every case mapping that keeps the empty string, puts no hyphen into a
  string without one, upper-cases a unit to a form that is not empty and, when one unit,
  is its own upper-case form, and lower-cases a lower-case form to itself:
  \<open>capitalizeWords\<close> (the spec's \<open>toStoreForm\<close>) is idempotent on every token, of any
  code units, in which no hyphen-separated segment has a first unit that upper-cases to
  more than one unit.
\<close>

theorem C7_capitalizeWords_idempotent:
  assumes "keeps_empty cs" and "makes_no_hyphen cs" and "upper_settles cs" and "lower_settles cs"
    and "\<not> list_ex (expands cs) (split_on hyphen str)"
  shows "capitalizeWords_in cs (capitalizeWords_in cs str) = capitalizeWords_in cs str"
proof -
  have "map (capitalizeWord_in cs) (map (capitalizeWord_in cs) (split_on hyphen str))
      = map (capitalizeWord_in cs) (split_on hyphen str)"
    using assms(5) capitalizeWord_in_idem [OF assms(1,3,4)]
    by (auto simp: list_ex_iff)
  then have idem: "join [hyphen] (map (capitalizeWord_in cs) (map (capitalizeWord_in cs) (split_on hyphen str)))
      = join [hyphen] (map (capitalizeWord_in cs) (split_on hyphen str))"
    by (rule arg_cong)
  have "capitalizeWords_in cs (capitalizeWords_in cs str)
      = join [hyphen] (map (capitalizeWord_in cs) (split_on hyphen (capitalizeWords_in cs str)))"
    by (rule capitalizeWords_in_def)
  also have "\<dots> = join [hyphen] (map (capitalizeWord_in cs) (map (capitalizeWord_in cs) (split_on hyphen str)))"
    by (simp only: split_on_capitalizeWords_in [OF assms(2)])
  also have "\<dots> = join [hyphen] (map (capitalizeWord_in cs) (split_on hyphen str))"
    by (rule idem)
  also have "\<dots> = capitalizeWords_in cs str"
    by (rule capitalizeWords_in_def [symmetric])
  finally show ?thesis .
qed

text \<open>
  The embedded tables and the token \<open>gro\<ss>-carb\<close>: the sharp s is not the first unit of
  a segment.
\<close>

theorem C7_capitalizeWords_idempotent_witness:
  "keeps_empty embedded_casing \<and> makes_no_hyphen embedded_casing \<and>
   upper_settles embedded_casing \<and> lower_settles embedded_casing \<and>
   \<not> list_ex (expands embedded_casing) (split_on hyphen (js (''gro'' @ [CHR 0xDF] @ ''-carb''))) \<and>
   capitalizeWords (js (''gro'' @ [CHR 0xDF] @ ''-carb'')) = js (''Gro'' @ [CHR 0xDF] @ ''-Carb'') \<and>
   capitalizeWords (capitalizeWords (js (''gro'' @ [CHR 0xDF] @ ''-carb'')))
     = capitalizeWords (js (''gro'' @ [CHR 0xDF] @ ''-carb''))"
proof -
  have h: "\<not> list_ex (expands embedded_casing)
      (split_on hyphen (js (''gro'' @ [CHR 0xDF] @ ''-carb'')))"
    by (simp add: expands_def embedded_casing_def toUpperCase_def upper_unit_def js_def hyphen_def)
  have v: "capitalizeWords (js (''gro'' @ [CHR 0xDF] @ ''-carb'')) = js (''Gro'' @ [CHR 0xDF] @ ''-Carb'')"
    by (simp add: js_eval)
  show ?thesis
    using h v embedded_keeps_empty embedded_makes_no_hyphen embedded_upper_settles embedded_lower_settles
      C7_capitalizeWords_idempotent [OF embedded_keeps_empty embedded_makes_no_hyphen
        embedded_upper_settles embedded_lower_settles h]
    by (simp add: capitalizeWords_embedded)
qed

text \<open>
  The token that is the sharp s alone: \<open>toUpperCase\<close> makes it \<open>SS\<close>, and the second
  application lower-cases the second \<open>S\<close>.
\<close>

theorem C7_sharp_s_counterexample:
  "expands embedded_casing (js [CHR 0xDF]) \<and>
   capitalizeWords_in embedded_casing (js [CHR 0xDF]) = js ''SS'' \<and>
   capitalizeWords_in embedded_casing (capitalizeWords_in embedded_casing (js [CHR 0xDF])) = js ''Ss'' \<and>
   capitalizeWords (js [CHR 0xDF]) = js ''SS'' \<and>
   capitalizeWords (capitalizeWords (js [CHR 0xDF])) = js ''Ss'' \<and>
   capitalizeWords (capitalizeWords (js [CHR 0xDF])) \<noteq> capitalizeWords (js [CHR 0xDF])"
proof -
  have e: "expands embedded_casing (js [CHR 0xDF])"
    by (simp add: expands_def embedded_casing_def toUpperCase_def upper_unit_def js_def)
  have c: "capitalizeWords (js [CHR 0xDF]) = js ''SS''"
      "capitalizeWords (capitalizeWords (js [CHR 0xDF])) = js ''Ss''"
    by (simp_all add: js_eval)
  have n: "js ''Ss'' \<noteq> js ''SS''"
    by (simp add: js_def)
  show ?thesis
    using e c n by (simp add: capitalizeWords_embedded)
qed

section \<open>The print route without recipes\<close>

text \<open>
  C8. When the body's \<open>recipes\<close> is missing or empty, the print route answers 400 with the
  message \<open>No recipes provided\<close> and the response carries no document.
\<close>

theorem C8_print_without_recipes:
  "recipes = None \<or> recipes = Some [] \<Longrightarrow>
     print_route recipes = Inr (Json 400 (ErrorMessage ''No recipes provided'')) \<and>
     document_ops (print_route recipes) = None"
  by (auto simp: print_route_def)

theorem C8_print_without_recipes_witness:
  "print_route (Some []) = Inr (Json 400 (ErrorMessage ''No recipes provided'')) \<and>
   document_ops (print_route (Some [])) = None \<and>
   print_route None = Inr (Json 400 (ErrorMessage ''No recipes provided'')) \<and>
   document_ops (print_route None) = None"
  using C8_print_without_recipes [of "Some []"] C8_print_without_recipes [of None]
  by simp

section \<open>Hits without label arrays\<close>

lemma map_hit_lacks_labels: "lacks_labels h \<Longrightarrow> map_hit h = Inl TypeError"
  by (auto simp: lacks_labels_def map_hit_def split: option.splits)

lemma map_throwing_lacks_labels:
  "list_ex lacks_labels hs \<Longrightarrow> \<exists>x. map_throwing map_hit hs = Inl x"
proof (induction hs)
  case Nil then show ?case by simp
next
  case (Cons h hs)
  show ?case
  proof (cases "lacks_labels h")
    case True
    then show ?thesis by (simp add: map_hit_lacks_labels)
  next
    case False
    with Cons obtain x where "map_throwing map_hit hs = Inl x" by auto
    then show ?thesis by (cases "map_hit h") simp_all
  qed
qed

text \<open>
  C9 (amended). In the fallback, when one of the first 100 hits of the provider's reply
  has a recipe without \<open>dietLabels\<close> or without \<open>healthLabels\<close>, the response is 500 with
  the message \<open>Internal Server Error\<close> and the collection and its next identifier are
  what they were; mapping any such hit throws a TypeError, so the \<open>|| []\<close> behind the two
  \<open>.map\<close> calls is never reached.
\<close>

theorem C9_missing_labels_internal_error:
  assumes "Recipe_find e (store_query req) no_internal_fields w = Inr recipes"
    and "length recipes < 12"
    and "queryString (dietCriteriaArrayLower req) (healthCriteriaArrayLower req) = Inr qs"
    and "fetchRecipes e (ampersand # qs) = Data (Some hits)"
    and "list_ex lacks_labels (take 100 hits)"
  shows "fst (getRecipes e req w) = Json 500 (ErrorMessage ''Internal Server Error'') \<and>
         collection (snd (getRecipes e req w)) = collection w \<and>
         next_id (snd (getRecipes e req w)) = next_id w \<and>
         list_all (\<lambda>h. map_hit h = Inl TypeError) (filter lacks_labels hits)"
proof -
  obtain x where "map_throwing map_hit (take 100 hits) = Inl x"
    using map_throwing_lacks_labels [OF assms(5)] by blast
  then have "getRecipes e req w =
      (internal_error, w\<lparr>provider_calls := provider_calls w @ [ampersand # qs]\<rparr>)"
    using assms(4) getRecipes_fallback [OF assms(1-3)] by simp
  then show ?thesis
    by (simp add: internal_error_def list_all_iff map_hit_lacks_labels)
qed

theorem C9_missing_labels_internal_error_witness:
  "list_ex lacks_labels (take 100 [Hit (Some soup), Hit (Some soup_without_dietLabels)]) \<and>
   fst (getRecipes (replying (Data (Some [Hit (Some soup), Hit (Some soup_without_dietLabels)])))
          balanced_request empty_world)
     = Json 500 (ErrorMessage ''Internal Server Error'') \<and>
   collection (snd (getRecipes
          (replying (Data (Some [Hit (Some soup), Hit (Some soup_without_dietLabels)])))
          balanced_request empty_world))
     = collection empty_world \<and>
   map_hit (Hit (Some soup_without_dietLabels)) = Inl TypeError"
proof -
  let ?hits = "[Hit (Some soup), Hit (Some soup_without_dietLabels)]"
  have f: "Recipe_find (replying (Data (Some ?hits))) (store_query balanced_request) no_internal_fields empty_world = Inr []"
    by (rule find_empty_world)
  have l: "length ([] :: item list) < 12" by simp
  have r: "fetchRecipes (replying (Data (Some ?hits))) (ampersand # js ''diet=balanced&'')
      = Data (Some ?hits)"
    by (simp add: replying_def)
  have b: "list_ex lacks_labels (take 100 ?hits)"
    by (simp add: lacks_labels_def soup_without_dietLabels_def soup_def)
  show ?thesis
    using b C9_missing_labels_internal_error [OF f l balanced_queryString r b]
    by (simp add: lacks_labels_def soup_without_dietLabels_def soup_def)
qed

text \<open>
  A reply of 101 hits whose last hit alone lacks \<open>dietLabels\<close>: only the first 100 are
  mapped, the response is 200 and 100 documents are inserted.
\<close>

theorem C9_late_hit_counterexample:
  "list_ex lacks_labels hundred_and_one_hits \<and>
   fst (getRecipes (replying (Data (Some hundred_and_one_hits))) balanced_request empty_world)
     = Json 200 (Recipes (replicate 12 (plain_object plain_recipe))) \<and>
   length (collection (snd (getRecipes (replying (Data (Some hundred_and_one_hits)))
      balanced_request empty_world))) = 100"
proof -
  have a: "list_ex lacks_labels hundred_and_one_hits"
    by (simp add: hundred_and_one_hits_def lacks_labels_def soup_without_dietLabels_def soup_def)
  have f: "Recipe_find (replying (Data (Some hundred_and_one_hits))) (store_query balanced_request) no_internal_fields
      empty_world = Inr []"
    by (rule find_empty_world)
  have m: "map_throwing map_hit (take 100 hundred_and_one_hits) = Inr (replicate 100 plain_recipe)"
    using map_throwing_replicate [of map_hit "Hit (Some soup)" plain_recipe 100] map_hit_soup
    by (simp add: take_hundred_and_one)
  have g: "getRecipes (replying (Data (Some hundred_and_one_hits))) balanced_request empty_world
      = (Json 200 (Recipes (replicate 12 (plain_object plain_recipe))),
         empty_world\<lparr>collection := collection empty_world @ new_docs (next_id empty_world) (replicate 100 plain_recipe),
                     next_id := next_id empty_world + 100,
                     provider_calls := provider_calls empty_world @ [ampersand # js ''diet=balanced&'']\<rparr>)"
    using getRecipes_fallback [OF f _ balanced_queryString]
    by (simp add: replying_def m selectedRecipes_def sort_random_no_draws)
  show ?thesis
    using a g by (simp add: length_new_docs empty_world_def)
qed

section \<open>No write when the store suffices\<close>

text \<open>
  C10. When the store lookup returns at least 12 matching records, the state after the
  request is the state before it: nothing is inserted and no provider call is made.
\<close>

theorem C10_sufficient_store_no_write:
  "Recipe_find e (store_query req) no_internal_fields w = Inr recipes \<Longrightarrow> 12 \<le> length recipes \<Longrightarrow>
     snd (getRecipes e req w) = w"
  by (simp add: getRecipes_sufficient)

theorem C10_sufficient_store_no_write_witness:
  "Recipe_find (replying NoData) (store_query unfiltered_request) no_internal_fields twelve_world
     = Inr (replicate 12 (plain_object plain_recipe)) \<and>
   12 \<le> length (replicate 12 (plain_object plain_recipe)) \<and>
   snd (getRecipes (replying NoData) unfiltered_request twelve_world) = twelve_world"
proof -
  have h: "Recipe_find (replying NoData) (store_query unfiltered_request) no_internal_fields twelve_world
     = Inr (replicate 12 (plain_object plain_recipe))"
    by (rule find_twelve_world)
  have l: "12 \<le> length (replicate 12 (plain_object plain_recipe))" by simp
  show ?thesis
    using h l C10_sufficient_store_no_write [OF h l] by simp
qed

end
